theory Spec2Isabelle
  imports Main "HOL-Library.Word" "HOL-Library.Sublist" "HOL-Library.AList"
begin

section \<open>JavaScript strings\<close>

text \<open>
  A JavaScript string is a sequence of UTF-16 code units. \<open>value.length\<close> counts code
  units, while the string iterator (\<open>for (const char of value)\<close>, \<open>new Set(value)\<close>)
  walks code points: a high surrogate followed by a low surrogate is one element.
  String literals of the source are written with \<open>str\<close>.
\<close>

type_synonym code_unit = "16 word"
type_synonym jsstring = "code_unit list"
type_synonym byte = "8 word"

definition str :: "string \<Rightarrow> jsstring" where
  "str cs = map (\<lambda>c. of_nat (of_char c)) cs"

definition isHighSurrogate :: "code_unit \<Rightarrow> bool" where
  "isHighSurrogate c = (0xD800 \<le> c \<and> c \<le> 0xDBFF)"

definition isLowSurrogate :: "code_unit \<Rightarrow> bool" where
  "isLowSurrogate c = (0xDC00 \<le> c \<and> c \<le> 0xDFFF)"

text \<open>The string iterator: the elements \<open>for ... of\<close> and \<open>new Set(value)\<close> see.\<close>

fun chars_of :: "jsstring \<Rightarrow> jsstring list" where
  "chars_of [] = []"
| "chars_of [x] = [[x]]"
| "chars_of (h # l # rest) =
     (if isHighSurrogate h \<and> isLowSurrogate l then [h, l] # chars_of rest
      else [h] # chars_of (l # rest))"

subsection \<open>Character classes of the regular expressions\<close>

definition isDigit :: "code_unit \<Rightarrow> bool" where
  \<comment> \<open>\<open>\d\<close>\<close>
  "isDigit c = (0x30 \<le> c \<and> c \<le> 0x39)"

definition isUpperAZ :: "code_unit \<Rightarrow> bool" where
  "isUpperAZ c = (0x41 \<le> c \<and> c \<le> 0x5A)"

definition isLowerAZ :: "code_unit \<Rightarrow> bool" where
  \<comment> \<open>\<open>[a-z]\<close>\<close>
  "isLowerAZ c = (0x61 \<le> c \<and> c \<le> 0x7A)"

definition isWordChar :: "code_unit \<Rightarrow> bool" where
  \<comment> \<open>\<open>\w\<close>, without the \<open>u\<close> and \<open>i\<close> flags: \<open>[A-Za-z0-9_]\<close>\<close>
  "isWordChar c = (isUpperAZ c \<or> isLowerAZ c \<or> isDigit c \<or> c = 0x5F)"

definition isSpace :: "code_unit \<Rightarrow> bool" where
  \<comment> \<open>\<open>\s\<close> and the characters \<open>trim\<close> strips: WhiteSpace and LineTerminator\<close>
  "isSpace c =
     (c \<in> set [0x09, 0x0A, 0x0B, 0x0C, 0x0D, 0x20, 0xA0, 0x1680, 0x2028, 0x2029,
                0x202F, 0x205F, 0x3000, 0xFEFF]
      \<or> (0x2000 \<le> c \<and> c \<le> 0x200A))"

subsection \<open>String methods\<close>

definition trim :: "jsstring \<Rightarrow> jsstring" where
  "trim s = rev (dropWhile isSpace (rev (dropWhile isSpace s)))"

text \<open>\<open>s.includes(t)\<close>: \<open>t\<close> occurs in \<open>s\<close> as a contiguous run of code units.\<close>

primrec str_includes :: "jsstring \<Rightarrow> jsstring \<Rightarrow> bool" where
  "str_includes [] t = (t = [])"
| "str_includes (x # xs) t = (prefix t (x # xs) \<or> str_includes xs t)"

definition startsWith :: "jsstring \<Rightarrow> jsstring \<Rightarrow> bool" where
  "startsWith s t = prefix t s"

text \<open>\<open>s.split(sep)\<close> for a one-unit separator: the pieces between the separators.\<close>

fun split_on :: "code_unit \<Rightarrow> jsstring \<Rightarrow> jsstring \<Rightarrow> jsstring list" where
  "split_on sep cur [] = [cur]"
| "split_on sep cur (x # xs) =
     (if x = sep then cur # split_on sep [] xs else split_on sep (cur @ [x]) xs)"

definition split :: "jsstring \<Rightarrow> code_unit \<Rightarrow> jsstring list" where
  "split s sep = split_on sep [] s"

section \<open>Numbers\<close>

text \<open>
  A JavaScript number is a double. The integers the program handles are modelled exactly:
  \<open>Num n\<close> is the double of value \<open>n\<close>, and every arithmetic result is rounded to the
  nearest double (ties to even) by \<open>to_double\<close>, which is the identity up to \<open>2^53\<close>.
  Overflow to \<open>Infinity\<close> (beyond about \<open>1.8e308\<close>) is a value of its own.
\<close>

datatype jsnum = NaN | PosInf | NegInf | Num int

function bitlen :: "int \<Rightarrow> nat" where
  "bitlen n = (if n \<le> 0 then 0 else Suc (bitlen (n div 2)))"
  by pat_completeness auto
termination
  by (relation "measure nat") auto

declare bitlen.simps [simp del]

definition round53 :: "int \<Rightarrow> int" where
  "round53 n =
     (if n \<le> 2 ^ 53 then n
      else let e = bitlen n - 53; q = n div 2 ^ e; r = n mod 2 ^ e; half = 2 ^ (e - 1)
           in if r > half \<or> (r = half \<and> odd q) then (q + 1) * 2 ^ e else q * 2 ^ e)"

definition to_double :: "int \<Rightarrow> jsnum" where
  "to_double i =
     (let n = round53 \<bar>i\<bar>
      in if n < 2 ^ 1024 then Num (if i < 0 then - n else n)
         else if i < 0 then NegInf else PosInf)"

definition js_add :: "jsnum \<Rightarrow> int \<Rightarrow> jsnum" where
  \<comment> \<open>\<open>x + k\<close> for an integer constant \<open>k\<close>\<close>
  "js_add x k = (case x of Num n \<Rightarrow> to_double (n + k) | other \<Rightarrow> other)"

definition js_ge :: "nat \<Rightarrow> jsnum \<Rightarrow> bool" where
  \<comment> \<open>\<open>n >= x\<close>: false against \<open>NaN\<close>\<close>
  "js_ge n x = (case x of Num m \<Rightarrow> m \<le> int n | NegInf \<Rightarrow> True | _ \<Rightarrow> False)"

definition js_le :: "nat \<Rightarrow> jsnum \<Rightarrow> bool" where
  "js_le n x = (case x of Num m \<Rightarrow> int n \<le> m | PosInf \<Rightarrow> True | _ \<Rightarrow> False)"

definition js_eq :: "nat \<Rightarrow> jsnum \<Rightarrow> bool" where
  \<comment> \<open>\<open>n === x\<close>\<close>
  "js_eq n x = (case x of Num m \<Rightarrow> int n = m | _ \<Rightarrow> False)"

definition js_gt :: "jsnum \<Rightarrow> jsnum \<Rightarrow> bool" where
  \<comment> \<open>\<open>x > y\<close> on two numbers\<close>
  "js_gt x y =
     (case (x, y) of
        (NaN, _) \<Rightarrow> False | (_, NaN) \<Rightarrow> False
      | (PosInf, PosInf) \<Rightarrow> False | (PosInf, _) \<Rightarrow> True
      | (_, PosInf) \<Rightarrow> False
      | (NegInf, _) \<Rightarrow> False | (_, NegInf) \<Rightarrow> True
      | (Num a, Num b) \<Rightarrow> b < a)"

definition digits_value :: "jsstring \<Rightarrow> int" where
  "digits_value ds = foldl (\<lambda>a d. 10 * a + (uint d - 0x30)) 0 ds"

text \<open>
  \<open>parseInt(s, 10)\<close>: leading white space and one sign are skipped, the longest run of
  decimal digits is read, and the rest is ignored; no digit gives \<open>NaN\<close>.
\<close>

definition parseInt :: "jsstring \<Rightarrow> jsnum" where
  "parseInt s =
     (let t = dropWhile isSpace s;
          neg = (case t of [] \<Rightarrow> False | x # _ \<Rightarrow> x = 0x2D);
          u = (case t of [] \<Rightarrow> [] | x # xs \<Rightarrow> if x = 0x2D \<or> x = 0x2B then xs else t);
          ds = takeWhile isDigit u
      in if ds = [] then NaN
         else to_double (if neg then - digits_value ds else digits_value ds))"

text \<open>The decimal digits of a non-negative integer.\<close>

function decimal :: "int \<Rightarrow> jsstring" where
  "decimal n =
     (if n < 10 then [of_int (0x30 + n)] else decimal (n div 10) @ [of_int (0x30 + n mod 10)])"
  by pat_completeness auto
termination
  by (relation "measure nat") auto

declare decimal.simps [simp del]

datatype jsval = JBool bool | JNum jsnum | JStr jsstring

section \<open>Regular expressions\<close>

text \<open>
  The fragment of ECMAScript regular expressions the source uses (no flags): literals,
  character classes, sequence, alternation, the greedy \<open>?\<close>, the greedy \<open>+\<close> on a
  class, one capturing group, \<open>\b\<close>, \<open>^\<close> and \<open>$\<close>. A matcher state is the end index
  and the capture of group 1. \<open>matches r s st\<close> lists the states in which a match of
  \<open>r\<close> starting in state \<open>st\<close> can end, in the order the backtracking matcher tries
  them, so the head of the list is the match JavaScript reports.
\<close>

datatype regex =
    Lit jsstring
  | Cls "code_unit \<Rightarrow> bool"
  | Seq regex regex
  | Alt regex regex
  | Opt regex
  | PlusCls "code_unit \<Rightarrow> bool"
  | Grp regex
  | WordB
  | Bol
  | Eol

type_synonym mstate = "nat \<times> jsstring option"

definition wordBefore :: "jsstring \<Rightarrow> nat \<Rightarrow> bool" where
  "wordBefore s i = (0 < i \<and> i \<le> length s \<and> isWordChar (s ! (i - 1)))"

definition wordAt :: "jsstring \<Rightarrow> nat \<Rightarrow> bool" where
  "wordAt s i = (i < length s \<and> isWordChar (s ! i))"

primrec matches :: "regex \<Rightarrow> jsstring \<Rightarrow> mstate \<Rightarrow> mstate list" where
  "matches (Lit cs) s st =
     (if take (length cs) (drop (fst st) s) = cs then [(fst st + length cs, snd st)] else [])"
| "matches (Cls P) s st =
     (if fst st < length s \<and> P (s ! fst st) then [(Suc (fst st), snd st)] else [])"
| "matches (Seq a b) s st = concat (map (matches b s) (matches a s st))"
| "matches (Alt a b) s st = matches a s st @ matches b s st"
| "matches (Opt a) s st = matches a s st @ [st]"
| "matches (PlusCls P) s st =
     map (\<lambda>n. (fst st + n, snd st))
       (rev [1..<Suc (length (takeWhile P (drop (fst st) s)))])"
| "matches (Grp a) s st =
     map (\<lambda>e. (fst e, Some (take (fst e - fst st) (drop (fst st) s)))) (matches a s st)"
| "matches WordB s st = (if wordBefore s (fst st) \<noteq> wordAt s (fst st) then [st] else [])"
| "matches Bol s st = (if fst st = 0 then [st] else [])"
| "matches Eol s st = (if fst st = length s then [st] else [])"

primrec first_some :: "('a \<Rightarrow> 'b option) \<Rightarrow> 'a list \<Rightarrow> 'b option" where
  "first_some f [] = None"
| "first_some f (x # xs) = (case f x of Some y \<Rightarrow> Some y | None \<Rightarrow> first_some f xs)"

definition match_at :: "regex \<Rightarrow> jsstring \<Rightarrow> nat \<Rightarrow> mstate option" where
  "match_at r s i = (case matches r s (i, None) of [] \<Rightarrow> None | e # _ \<Rightarrow> Some e)"

text \<open>
  \<open>regex.exec(s)\<close> and \<open>s.match(regex)\<close> without the \<open>g\<close> flag: the first start index,
  from 0 to the length, at which the matcher succeeds. The result is the capture of
  group 1 (\<open>None\<close> inside is \<open>undefined\<close>); \<open>None\<close> outside is \<open>null\<close>.
\<close>

definition exec :: "regex \<Rightarrow> jsstring \<Rightarrow> jsstring option option" where
  "exec r s = first_some (\<lambda>i. map_option snd (match_at r s i)) [0..<Suc (length s)]"

definition test :: "regex \<Rightarrow> jsstring \<Rightarrow> bool" where
  "test r s = (exec r s \<noteq> None)"

section \<open>The analyzer (src/utils.ts)\<close>

text \<open>
  What the host provides: \<open>String.prototype.toLowerCase\<close> (the Unicode case table),
  \<open>crypto.subtle.digest("SHA-256", _)\<close> when \<open>crypto.subtle\<close> exists,
  \<open>decodeURIComponent\<close> (\<open>None\<close> when it throws \<open>URIError\<close>), and the digits
  \<open>String(v)\<close> prints for a number beyond \<open>2^53\<close> (the shortest digits that read back
  as the same double, in exponent notation from \<open>1e21\<close>).
\<close>

record platform =
  toLowerCase :: "jsstring \<Rightarrow> jsstring"
  subtle_digest :: "(byte list \<Rightarrow> byte list) option"
  decodeURIComponent :: "jsstring \<Rightarrow> jsstring option"
  big_number_to_string :: "int \<Rightarrow> jsstring"

subsection \<open>computeSHA256\<close>

text \<open>
  \<open>TextEncoder.encode\<close>: the string as code points, a lone surrogate read as U+FFFD,
  each code point in UTF-8.
\<close>

fun code_points :: "jsstring \<Rightarrow> int list" where
  "code_points [] = []"
| "code_points [x] = [if isHighSurrogate x \<or> isLowSurrogate x then 0xFFFD else uint x]"
| "code_points (h # l # rest) =
     (if isHighSurrogate h \<and> isLowSurrogate l
      then (0x10000 + (uint h - 0xD800) * 0x400 + (uint l - 0xDC00)) # code_points rest
      else (if isHighSurrogate h \<or> isLowSurrogate h then 0xFFFD else uint h)
             # code_points (l # rest))"

definition utf8 :: "int \<Rightarrow> byte list" where
  "utf8 cp =
     (if cp < 0x80 then [of_int cp]
      else if cp < 0x800 then [of_int (0xC0 + cp div 0x40), of_int (0x80 + cp mod 0x40)]
      else if cp < 0x10000 then
        [of_int (0xE0 + cp div 0x1000), of_int (0x80 + cp div 0x40 mod 0x40),
         of_int (0x80 + cp mod 0x40)]
      else
        [of_int (0xF0 + cp div 0x40000), of_int (0x80 + cp div 0x1000 mod 0x40),
         of_int (0x80 + cp div 0x40 mod 0x40), of_int (0x80 + cp mod 0x40)])"

definition encode :: "jsstring \<Rightarrow> byte list" where
  "encode v = concat (map utf8 (code_points v))"

definition hex_digit :: "int \<Rightarrow> code_unit" where
  "hex_digit d = (if d < 10 then of_int (0x30 + d) else of_int (0x61 + (d - 10)))"

definition hex_byte :: "byte \<Rightarrow> jsstring" where
  \<comment> \<open>\<open>b.toString(16).padStart(2, "0")\<close>\<close>
  "hex_byte b = [hex_digit (uint b div 16), hex_digit (uint b mod 16)]"

datatype js_error = TypeError | URIError | SubtleCryptoNotAvailable

definition computeSHA256 :: "platform \<Rightarrow> jsstring \<Rightarrow> js_error + jsstring" where
  "computeSHA256 P v =
     (case subtle_digest P of
        None \<Rightarrow> Inl TypeError
      | Some digest \<Rightarrow> Inr (concat (map hex_byte (digest (encode v)))))"

subsection \<open>isPalindrome, countUniqueChars, countWords, getCharFrequency\<close>

definition nonWordOrUnderscore :: "code_unit \<Rightarrow> bool" where
  \<comment> \<open>the class \<open>[\W_]\<close>\<close>
  "nonWordOrUnderscore c = (\<not> isWordChar c \<or> c = 0x5F)"

definition replace_all_cls :: "(code_unit \<Rightarrow> bool) \<Rightarrow> jsstring \<Rightarrow> jsstring" where
  \<comment> \<open>\<open>s.replace(/[class]/g, "")\<close>: every match of the one-unit class is deleted\<close>
  "replace_all_cls cls s = concat (map (\<lambda>c. if cls c then [] else [c]) s)"

definition isPalindrome :: "platform \<Rightarrow> jsstring \<Rightarrow> bool" where
  "isPalindrome P v =
     (let cleaned = toLowerCase P (replace_all_cls nonWordOrUnderscore v)
      in cleaned = concat (rev (map (\<lambda>c. [c]) cleaned)))"

definition countUniqueChars :: "jsstring \<Rightarrow> nat" where
  \<comment> \<open>\<open>new Set(value).size\<close>\<close>
  "countUniqueChars v = length (remdups (chars_of v))"

text \<open>
  \<open>s.split(/\s+/)\<close>: the pieces between the maximal runs of white space (an empty piece
  before a leading run and after a trailing one).
\<close>

function split_ws :: "jsstring \<Rightarrow> jsstring \<Rightarrow> jsstring list" where
  "split_ws cur [] = [cur]"
| "split_ws cur (x # xs) =
     (if isSpace x then cur # split_ws [] (dropWhile isSpace xs)
      else split_ws (cur @ [x]) xs)"
  by pat_completeness auto
termination
  by (relation "measure (\<lambda>(cur, s). length s)")
     (auto simp: less_Suc_eq_le length_dropWhile_le)

declare split_ws.simps [simp del]

definition countWords :: "jsstring \<Rightarrow> nat" where
  "countWords v = (let words = split_ws [] (trim v) in if trim v = [] then 0 else length words)"

type_synonym freq_map = "(jsstring \<times> nat) list"

definition bump :: "freq_map \<Rightarrow> jsstring \<Rightarrow> freq_map" where
  \<comment> \<open>\<open>freq[char] = (freq[char] || 0) + 1\<close>\<close>
  "bump freq ch =
     AList.update ch ((case map_of freq ch of None \<Rightarrow> 0 | Some n \<Rightarrow> n) + 1) freq"

definition getCharFrequency :: "jsstring \<Rightarrow> freq_map" where
  "getCharFrequency v = foldl bump [] (chars_of v)"

subsection \<open>analyzeString\<close>

record analysis =
  str_length :: nat
  is_palindrome :: bool
  unique_characters :: nat
  word_count :: nat
  sha256_hash :: jsstring
  character_frequency_map :: freq_map

definition analyzeString :: "platform \<Rightarrow> jsstring \<Rightarrow> js_error + analysis" where
  "analyzeString P v =
     (case computeSHA256 P v of
        Inl e \<Rightarrow> Inl e
      | Inr h \<Rightarrow> Inr \<lparr> str_length = length v,
                       is_palindrome = isPalindrome P v,
                       unique_characters = countUniqueChars v,
                       word_count = countWords v,
                       sha256_hash = h,
                       character_frequency_map = getCharFrequency v \<rparr>)"

section \<open>The route handlers\<close>

text \<open>
  The repository holds two variants of the route handler: the one of
  \<open>src/unnamed/part_000\<close> (suffix \<open>_A\<close> below) and the one that follows the README in
  \<open>src/README.md\<close> (suffix \<open>_B\<close>). \<open>parseNaturalLanguageQuery\<close>, \<open>json\<close> and the
  first four steps of \<open>applyFilters\<close> are the same text in both.
\<close>

subsection \<open>URLSearchParams and property bags\<close>

type_synonym params = "(jsstring \<times> jsstring) list"
type_synonym bag = "(jsstring \<times> jsval) list"

definition has :: "params \<Rightarrow> jsstring \<Rightarrow> bool" where
  "has ps k = (map_of ps k \<noteq> None)"

definition get_or :: "params \<Rightarrow> jsstring \<Rightarrow> jsstring \<Rightarrow> jsstring" where
  \<comment> \<open>\<open>params.get(k) || d\<close>: the first value of \<open>k\<close>, or \<open>d\<close> when absent or empty\<close>
  "get_or ps k d = (case map_of ps k of None \<Rightarrow> d | Some v \<Rightarrow> if v = [] then d else v)"

definition String_of :: "platform \<Rightarrow> jsval \<Rightarrow> jsstring" where
  \<comment> \<open>\<open>String(v)\<close>\<close>
  "String_of P v =
     (case v of
        JBool b \<Rightarrow> (if b then str ''true'' else str ''false'')
      | JStr t \<Rightarrow> t
      | JNum NaN \<Rightarrow> str ''NaN''
      | JNum PosInf \<Rightarrow> str ''Infinity''
      | JNum NegInf \<Rightarrow> str ''-Infinity''
      | JNum (Num n) \<Rightarrow>
          (if \<bar>n\<bar> \<le> 2 ^ 53
           then (if n < 0 then str ''-'' @ decimal (- n) else decimal n)
           else big_number_to_string P n))"

subsection \<open>Records and the store\<close>

record string_record =
  rec_id :: jsstring
  rec_value :: jsstring
  properties :: analysis
  created_at :: jsstring

text \<open>
  The KV namespace, as the list of its entries; a stored JSON text is identified with
  the record it serialises. \<open>list()\<close> yields the keys in the order of the entries.
\<close>

type_synonym store = "(jsstring \<times> string_record) list"

definition kv_get :: "store \<Rightarrow> jsstring \<Rightarrow> string_record option" where
  "kv_get st k = map_of st k"

definition kv_put :: "store \<Rightarrow> jsstring \<Rightarrow> string_record \<Rightarrow> store" where
  "kv_put st k r = AList.update k r st"

definition kv_delete :: "store \<Rightarrow> jsstring \<Rightarrow> store" where
  "kv_delete st k = AList.delete k st"

definition kv_list :: "store \<Rightarrow> jsstring list" where
  "kv_list st = map fst st"

definition load_all :: "store \<Rightarrow> string_record list" where
  \<comment> \<open>the loop over \<open>list.keys\<close> that gets and parses every entry\<close>
  "load_all st = List.map_filter (kv_get st) (kv_list st)"

subsection \<open>applyFilters\<close>

record filter_result =
  data :: "string_record list"
  applied :: bag

definition filter_is_palindrome :: "params \<Rightarrow> filter_result \<Rightarrow> filter_result" where
  "filter_is_palindrome ps fr =
     (if has ps (str ''is_palindrome'') then
        let boolVal = (map_of ps (str ''is_palindrome'') = Some (str ''true''))
        in \<lparr> data = filter (\<lambda>r. is_palindrome (properties r) = boolVal) (data fr),
             applied = AList.update (str ''is_palindrome'') (JBool boolVal) (applied fr) \<rparr>
      else fr)"

definition filter_min_length :: "params \<Rightarrow> filter_result \<Rightarrow> filter_result" where
  "filter_min_length ps fr =
     (if has ps (str ''min_length'') then
        let min = parseInt (get_or ps (str ''min_length'') (str ''0''))
        in \<lparr> data = filter (\<lambda>r. js_ge (str_length (properties r)) min) (data fr),
             applied = AList.update (str ''min_length'') (JNum min) (applied fr) \<rparr>
      else fr)"

definition filter_max_length :: "params \<Rightarrow> filter_result \<Rightarrow> filter_result" where
  "filter_max_length ps fr =
     (if has ps (str ''max_length'') then
        let max = parseInt (get_or ps (str ''max_length'') (str ''99999''))
        in \<lparr> data = filter (\<lambda>r. js_le (str_length (properties r)) max) (data fr),
             applied = AList.update (str ''max_length'') (JNum max) (applied fr) \<rparr>
      else fr)"

definition filter_word_count :: "params \<Rightarrow> filter_result \<Rightarrow> filter_result" where
  "filter_word_count ps fr =
     (if has ps (str ''word_count'') then
        let wc = parseInt (get_or ps (str ''word_count'') (str ''0''))
        in \<lparr> data = filter (\<lambda>r. js_eq (word_count (properties r)) wc) (data fr),
             applied = AList.update (str ''word_count'') (JNum wc) (applied fr) \<rparr>
      else fr)"

definition filter_contains_A :: "params \<Rightarrow> filter_result \<Rightarrow> filter_result" where
  \<comment> \<open>src/unnamed/part_000, lines 196 to 200\<close>
  "filter_contains_A ps fr =
     (if has ps (str ''contains_character'') then
        let ch = get_or ps (str ''contains_character'') []
        in \<lparr> data = filter (\<lambda>r. str_includes (rec_value r) ch) (data fr),
             applied = AList.update (str ''contains_character'') (JStr ch) (applied fr) \<rparr>
      else fr)"

definition filter_contains_B :: "platform \<Rightarrow> params \<Rightarrow> filter_result \<Rightarrow> filter_result" where
  \<comment> \<open>src/README.md, lines 394 to 398\<close>
  "filter_contains_B P ps fr =
     (if has ps (str ''contains_character'') then
        let ch = toLowerCase P (get_or ps (str ''contains_character'') [])
        in \<lparr> data = filter (\<lambda>r. str_includes (toLowerCase P (rec_value r)) ch) (data fr),
             applied = AList.update (str ''contains_character'') (JStr ch) (applied fr) \<rparr>
      else fr)"

definition applyFilters_A :: "string_record list \<Rightarrow> params \<Rightarrow> filter_result" where
  "applyFilters_A records ps =
     filter_contains_A ps (filter_word_count ps (filter_max_length ps (filter_min_length ps
       (filter_is_palindrome ps \<lparr> data = records, applied = [] \<rparr>))))"

definition applyFilters_B :: "platform \<Rightarrow> string_record list \<Rightarrow> params \<Rightarrow> filter_result" where
  "applyFilters_B P records ps =
     filter_contains_B P ps (filter_word_count ps (filter_max_length ps (filter_min_length ps
       (filter_is_palindrome ps \<lparr> data = records, applied = [] \<rparr>))))"

subsection \<open>parseNaturalLanguageQuery\<close>

definition rx_single_word :: regex where
  \<comment> \<open>\<open>/\b(single word|one word|\b1 word)\b/\<close>\<close>
  "rx_single_word =
     Seq WordB (Seq (Grp (Alt (Lit (str ''single word''))
                         (Alt (Lit (str ''one word'')) (Seq WordB (Lit (str ''1 word''))))))
                    WordB)"

definition rx_palindromic :: regex where
  \<comment> \<open>\<open>/(palindromic|palindrome|palindromic strings|palindromes)/\<close>\<close>
  "rx_palindromic =
     Grp (Alt (Lit (str ''palindromic''))
         (Alt (Lit (str ''palindrome''))
         (Alt (Lit (str ''palindromic strings'')) (Lit (str ''palindromes'')))))"

definition rx_longer :: regex where
  \<comment> \<open>\<open>/longer than (\d+) characters?/\<close>\<close>
  "rx_longer =
     Seq (Lit (str ''longer than ''))
       (Seq (Grp (PlusCls isDigit)) (Seq (Lit (str '' character'')) (Opt (Lit (str ''s'')))))"

definition rx_contains_letter :: regex where
  \<comment> \<open>\<open>/contain(?:ing|s)? the letter ([a-z])/\<close>\<close>
  "rx_contains_letter =
     Seq (Lit (str ''contain''))
       (Seq (Opt (Alt (Lit (str ''ing'')) (Lit (str ''s''))))
         (Seq (Lit (str '' the letter '')) (Grp (Cls isLowerAZ))))"

definition rx_containing :: regex where
  \<comment> \<open>\<open>/containing (?:the )?([a-z])/\<close>\<close>
  "rx_containing =
     Seq (Lit (str ''containing '')) (Seq (Opt (Lit (str ''the ''))) (Grp (Cls isLowerAZ)))"

text \<open>The four steps of the parser, each on the lower-cased query and the bag so far.\<close>

definition rule_word_count :: "jsstring \<Rightarrow> bag \<Rightarrow> bag" where
  "rule_word_count lowered out =
     (let singleWord = test rx_single_word lowered
      in if singleWord then AList.update (str ''word_count'') (JNum (Num 1)) out else out)"

definition rule_palindrome :: "jsstring \<Rightarrow> bag \<Rightarrow> bag" where
  "rule_palindrome lowered out =
     (if test rx_palindromic lowered
      then AList.update (str ''is_palindrome'') (JBool True) out else out)"

definition rule_longer :: "jsstring \<Rightarrow> bag \<Rightarrow> bag" where
  "rule_longer lowered out =
     (case exec rx_longer lowered of
        Some (Some g) \<Rightarrow>
          (let n = parseInt g
           in if n = NaN then out
              else AList.update (str ''min_length'') (JNum (js_add n 1)) out)
      | _ \<Rightarrow> out)"

definition rule_contains :: "jsstring \<Rightarrow> bag \<Rightarrow> bag" where
  "rule_contains lowered out =
     (case exec rx_contains_letter lowered of
        Some (Some c) \<Rightarrow> AList.update (str ''contains_character'') (JStr c) out
      | _ \<Rightarrow>
          (case exec rx_containing lowered of
             Some (Some c) \<Rightarrow> AList.update (str ''contains_character'') (JStr c) out
           | _ \<Rightarrow> out))"

definition parseNaturalLanguageQuery :: "platform \<Rightarrow> jsstring \<Rightarrow> bag option" where
  "parseNaturalLanguageQuery P q =
     (let lowered = trim (toLowerCase P q);
          out = rule_contains lowered (rule_longer lowered (rule_palindrome lowered
                  (rule_word_count lowered [])))
      in if length out = 0 then None else Some out)"

subsection \<open>Requests and responses\<close>

text \<open>
  A request as the handler reads it: \<open>request.method.toUpperCase()\<close>, \<open>url.pathname\<close>,
  \<open>url.searchParams\<close>, what \<open>request.json()\<close> yields, and the time \<open>new Date()\<close> shows.
  \<open>body_json\<close> is \<open>None\<close> when \<open>request.json()\<close> fails or yields a falsy value; otherwise
  it tells what \<open>body.value\<close> is.
\<close>

datatype body_value = Undefined | NotAString | AString jsstring

record request =
  req_method :: jsstring
  pathname :: jsstring
  searchParams :: params
  body_json :: "body_value option"
  time_now :: jsstring

datatype envelope =
    FiltersApplied bag
  | InterpretedQuery jsstring bag

text \<open>
  \<open>ThrownError e\<close> is the body \<open>{error: err.message || "Internal error"}\<close> the \<open>catch\<close>
  block builds from the error \<open>e\<close>.
\<close>

datatype payload =
    ErrorBody jsstring
  | ThrownError js_error
  | RecordBody string_record
  | ListBody "string_record list" nat envelope

datatype response =
    JsonResponse payload nat
  | TextResponse nat
  | EmptyResponse nat

definition json :: "payload \<Rightarrow> nat \<Rightarrow> response" where
  "json d status = JsonResponse d status"

type_synonym outcome = "js_error + (response \<times> store)"

definition strip_trailing_slashes :: "jsstring \<Rightarrow> jsstring" where
  \<comment> \<open>\<open>url.pathname.replace(/\/+$/, "")\<close>\<close>
  "strip_trailing_slashes s = rev (dropWhile (\<lambda>c. c = 0x2F) (rev s))"

definition catch_all :: "store \<Rightarrow> outcome \<Rightarrow> response \<times> store" where
  \<comment> \<open>the \<open>try\<close>/\<open>catch\<close> around the routes; every throw precedes the store writes\<close>
  "catch_all st out = (case out of Inl e \<Rightarrow> (json (ThrownError e) 500, st) | Inr r \<Rightarrow> r)"

subsection \<open>POST /strings\<close>

definition create_record :: "platform \<Rightarrow> request \<Rightarrow> store \<Rightarrow> jsstring \<Rightarrow> outcome" where
  \<comment> \<open>from \<open>analyzeString(value)\<close> to the 201 response, the same text in both variants\<close>
  "create_record P req st v =
     (case analyzeString P v of
        Inl e \<Rightarrow> Inl e
      | Inr an \<Rightarrow>
          (let ident = sha256_hash an
           in case kv_get st ident of
                Some existing \<Rightarrow> Inr (json (ErrorBody (str ''String already exists'')) 409, st)
              | None \<Rightarrow>
                  (let record = \<lparr> rec_id = ident, rec_value = v, properties = an,
                                    created_at = time_now req \<rparr>
                   in Inr (json (RecordBody record) 201, kv_put st ident record))))"

definition post_strings_A :: "platform \<Rightarrow> request \<Rightarrow> store \<Rightarrow> outcome" where
  "post_strings_A P req st =
     (case body_json req of
        Some (AString raw) \<Rightarrow>
          (let v = trim raw
           in if v = [] then Inr (json (ErrorBody (str ''Empty string not allowed'')) 400, st)
              else create_record P req st v)
      | _ \<Rightarrow> Inr (json (ErrorBody (str ''Invalid or missing 'value' field'')) 400, st))"

definition post_strings_B :: "platform \<Rightarrow> request \<Rightarrow> store \<Rightarrow> outcome" where
  "post_strings_B P req st =
     (case body_json req of
        None \<Rightarrow> Inr (json (ErrorBody (str ''Invalid or missing 'value' field'')) 400, st)
      | Some Undefined \<Rightarrow>
          Inr (json (ErrorBody (str ''Invalid or missing 'value' field'')) 400, st)
      | Some NotAString \<Rightarrow>
          Inr (json (ErrorBody (str ''Invalid data type for 'value' (must be string)'')) 422, st)
      | Some (AString v) \<Rightarrow>
          (if length v = 0 then Inr (json (ErrorBody (str ''Empty string not allowed'')) 400, st)
           else create_record P req st v))"

subsection \<open>GET /strings/filter-by-natural-language\<close>

definition bag_get :: "bag \<Rightarrow> jsstring \<Rightarrow> jsval option" where
  \<comment> \<open>\<open>parsed.k\<close>; \<open>None\<close> is \<open>undefined\<close>\<close>
  "bag_get b k = map_of b k"

definition conflicting :: "bag \<Rightarrow> bool" where
  \<comment> \<open>\<open>parsed.min_length !== undefined && parsed.max_length !== undefined
      && parsed.min_length > parsed.max_length\<close>\<close>
  "conflicting parsed =
     (case (bag_get parsed (str ''min_length''), bag_get parsed (str ''max_length'')) of
        (Some (JNum a), Some (JNum b)) \<Rightarrow> js_gt a b
      | _ \<Rightarrow> False)"

definition to_params :: "platform \<Rightarrow> bag \<Rightarrow> params" where
  \<comment> \<open>\<open>Object.entries(parsed).forEach(([k, v]) => params.set(k, String(v)))\<close>\<close>
  "to_params P parsed = foldl (\<lambda>ps (k, v). AList.update k (String_of P v) ps) [] parsed"

definition natural_language_route ::
  "(string_record list \<Rightarrow> params \<Rightarrow> filter_result) \<Rightarrow> platform \<Rightarrow> request \<Rightarrow> store \<Rightarrow> outcome"
where
  "natural_language_route apply P req st =
     (let q = get_or (searchParams req) (str ''query'') []
      in if q = [] then Inr (json (ErrorBody (str ''Missing 'query' parameter'')) 400, st)
         else case parseNaturalLanguageQuery P q of
                None \<Rightarrow>
                  Inr (json (ErrorBody (str ''Unable to parse natural language query'')) 400, st)
              | Some parsed \<Rightarrow>
                  if conflicting parsed
                  then Inr (json (ErrorBody (str ''Conflicting filters'')) 422, st)
                  else (let results = load_all st;
                            filters = apply results (to_params P parsed)
                        in Inr (json (ListBody (data filters) (length (data filters))
                                       (InterpretedQuery q parsed)) 200, st)))"

subsection \<open>GET and DELETE /strings/{value}\<close>

definition computeHash :: "platform \<Rightarrow> jsstring \<Rightarrow> js_error + jsstring" where
  \<comment> \<open>the helper of src/unnamed/part_000\<close>
  "computeHash P v =
     (case subtle_digest P of
        None \<Rightarrow> Inl SubtleCryptoNotAvailable
      | Some digest \<Rightarrow> Inr (concat (map hex_byte (digest (encode v)))))"

definition get_string ::
  "(jsstring \<Rightarrow> js_error + jsstring) \<Rightarrow> platform \<Rightarrow> jsstring \<Rightarrow> store \<Rightarrow> outcome"
where
  "get_string hash_of P seg st =
     (case decodeURIComponent P seg of
        None \<Rightarrow> Inl URIError
      | Some v \<Rightarrow>
          (case hash_of v of
             Inl e \<Rightarrow> Inl e
           | Inr h \<Rightarrow>
               (case kv_get st h of
                  None \<Rightarrow> Inr (json (ErrorBody (str ''String not found'')) 404, st)
                | Some d \<Rightarrow> Inr (json (RecordBody d) 200, st))))"

definition delete_string ::
  "(jsstring \<Rightarrow> js_error + jsstring) \<Rightarrow> platform \<Rightarrow> jsstring \<Rightarrow> store \<Rightarrow> outcome"
where
  "delete_string hash_of P seg st =
     (case decodeURIComponent P seg of
        None \<Rightarrow> Inl URIError
      | Some v \<Rightarrow>
          (case hash_of v of
             Inl e \<Rightarrow> Inl e
           | Inr h \<Rightarrow>
               (case kv_get st h of
                  None \<Rightarrow> Inr (json (ErrorBody (str ''String not found'')) 404, st)
                | Some d \<Rightarrow> Inr (EmptyResponse 204, kv_delete st h))))"

subsection \<open>GET /strings\<close>

definition list_strings_A :: "request \<Rightarrow> store \<Rightarrow> outcome" where
  "list_strings_A req st =
     (let results = load_all st;
          filters = applyFilters_A results (searchParams req)
      in Inr (json (ListBody (data filters) (length (data filters))
                     (FiltersApplied (applied filters))) 200, st))"

definition rx_digits :: regex where
  \<comment> \<open>\<open>/^\d+$/\<close>\<close>
  "rx_digits = Seq Bol (Seq (PlusCls isDigit) Eol)"

text \<open>The checks of the query parameters; the result is the parameter the 400 names.\<close>

definition validate_query :: "params \<Rightarrow> jsstring option" where
  "validate_query ps =
     (if has ps (str ''is_palindrome'')
         \<and> map_of ps (str ''is_palindrome'') \<noteq> Some (str ''true'')
         \<and> map_of ps (str ''is_palindrome'') \<noteq> Some (str ''false'')
      then Some (str ''is_palindrome'')
      else if has ps (str ''min_length'') \<and> \<not> test rx_digits (get_or ps (str ''min_length'') [])
      then Some (str ''min_length'')
      else if has ps (str ''max_length'') \<and> \<not> test rx_digits (get_or ps (str ''max_length'') [])
      then Some (str ''max_length'')
      else if has ps (str ''word_count'') \<and> \<not> test rx_digits (get_or ps (str ''word_count'') [])
      then Some (str ''word_count'')
      else if has ps (str ''contains_character'')
              \<and> length (get_or ps (str ''contains_character'') []) = 0
      then Some (str ''contains_character'')
      else None)"

definition list_strings_B :: "platform \<Rightarrow> request \<Rightarrow> store \<Rightarrow> outcome" where
  "list_strings_B P req st =
     (case validate_query (searchParams req) of
        Some name \<Rightarrow>
          Inr (json (ErrorBody (str ''Invalid query parameter '' @ [0x27] @ name @ [0x27])) 400,
               st)
      | None \<Rightarrow>
          (let results = load_all st;
               filters = applyFilters_B P results (searchParams req)
           in Inr (json (ListBody (data filters) (length (data filters))
                          (FiltersApplied (applied filters))) 200, st)))"

subsection \<open>fetch\<close>

definition fetch_A :: "platform \<Rightarrow> request \<Rightarrow> store \<Rightarrow> response \<times> store" where
  "fetch_A P req st =
     (let path = strip_trailing_slashes (pathname req);
          method = req_method req
      in catch_all st
          (if method = str ''POST'' \<and> path = str ''/strings'' then post_strings_A P req st
           else if method = str ''GET''
                   \<and> startsWith path (str ''/strings/filter-by-natural-language'')
           then natural_language_route applyFilters_A P req st
           else if method = str ''GET'' \<and> startsWith path (str ''/strings/'')
                   \<and> length (split path 0x2F) = 3
           then get_string (computeHash P) P (split path 0x2F ! 2) st
           else if method = str ''DELETE'' \<and> startsWith path (str ''/strings/'')
                   \<and> length (split path 0x2F) = 3
           then delete_string (computeHash P) P (split path 0x2F ! 2) st
           else if method = str ''GET'' \<and> path = str ''/strings'' then list_strings_A req st
           else Inr (TextResponse 200, st)))"

definition fetch_B :: "platform \<Rightarrow> request \<Rightarrow> store \<Rightarrow> response \<times> store" where
  "fetch_B P req st =
     (let path = strip_trailing_slashes (pathname req);
          segments = filter (\<lambda>p. p \<noteq> []) (split path 0x2F);
          method = req_method req
      in catch_all st
          (if method = str ''POST'' \<and> length segments = 1 \<and> segments ! 0 = str ''strings''
           then post_strings_B P req st
           else if method = str ''GET'' \<and> length segments = 2 \<and> segments ! 0 = str ''strings''
                   \<and> segments ! 1 = str ''filter-by-natural-language''
           then natural_language_route (applyFilters_B P) P req st
           else if method = str ''GET'' \<and> length segments = 2 \<and> segments ! 0 = str ''strings''
           then get_string (computeSHA256 P) P (segments ! 1) st
           else if method = str ''DELETE'' \<and> length segments = 2
                   \<and> segments ! 0 = str ''strings''
           then delete_string (computeSHA256 P) P (segments ! 1) st
           else if method = str ''GET'' \<and> length segments = 1 \<and> segments ! 0 = str ''strings''
           then list_strings_B P req st
           else Inr (TextResponse 200, st)))"

section \<open>A concrete host and concrete requests\<close>

text \<open>
  On ASCII input \<open>toLowerCase\<close> maps \<open>A\<close> to \<open>Z\<close> onto \<open>a\<close> to \<open>z\<close> and leaves the rest;
  \<open>host_ok\<close> says so of a host. \<open>ascii_host\<close> is such a host, used to run the handlers
  on concrete requests; its digest is a stand-in, not SHA-256.
\<close>

definition ascii_lower :: "jsstring \<Rightarrow> jsstring" where
  "ascii_lower s = map (\<lambda>c. if isUpperAZ c then c + 0x20 else c) s"

definition isAscii :: "code_unit \<Rightarrow> bool" where
  "isAscii c = (c < 0x80)"

definition host_ok :: "platform \<Rightarrow> bool" where
  "host_ok P = (\<forall>s. list_all isAscii s \<longrightarrow> toLowerCase P s = ascii_lower s)"

definition ascii_host :: platform where
  "ascii_host =
     \<lparr> toLowerCase = ascii_lower,
       subtle_digest = Some (\<lambda>bs. take 4 (bs @ [0, 0, 0, 0])),
       decodeURIComponent = Some,
       big_number_to_string = (\<lambda>n. str ''1e+21'') \<rparr>"

definition post_request :: "jsstring \<Rightarrow> request" where
  "post_request v =
     \<lparr> req_method = str ''POST'', pathname = str ''/strings'', searchParams = [],
       body_json = Some (AString v), time_now = str ''2025-10-17T10:00:00.000Z'' \<rparr>"

definition get_request :: "jsstring \<Rightarrow> params \<Rightarrow> request" where
  "get_request path ps =
     \<lparr> req_method = str ''GET'', pathname = path, searchParams = ps,
       body_json = None, time_now = str ''2025-10-17T10:00:00.000Z'' \<rparr>"

definition apple_store :: store where
  \<comment> \<open>the store after \<open>POST /strings {"value": "Apple"}\<close> on the empty store\<close>
  "apple_store = snd (fetch_B ascii_host (post_request (str ''Apple'')) [])"

section \<open>Notions of the specification\<close>

text \<open>
  The palindrome test as the specification states it: the characters that are not letters
  or digits are removed, the rest is lower-cased and compared with its reversal. Letters
  and digits are meant in the sense of Unicode; \<open>isLetterOrDigit\<close> lists them for the
  Basic Latin, Latin-1 Supplement, Latin Extended-A and Extended-B, and Cyrillic blocks.
\<close>

definition isLetterOrDigit :: "code_unit \<Rightarrow> bool" where
  "isLetterOrDigit c =
     (isUpperAZ c \<or> isLowerAZ c \<or> isDigit c
      \<or> c = 0xAA \<or> c = 0xB5 \<or> c = 0xBA
      \<or> (0xC0 \<le> c \<and> c \<le> 0xD6) \<or> (0xD8 \<le> c \<and> c \<le> 0xF6) \<or> (0xF8 \<le> c \<and> c \<le> 0x24F)
      \<or> (0x400 \<le> c \<and> c \<le> 0x481) \<or> (0x48A \<le> c \<and> c \<le> 0x52F))"

definition palindrome_by_spec :: "platform \<Rightarrow> jsstring \<Rightarrow> bool" where
  "palindrome_by_spec P s = (let t = toLowerCase P (filter isLetterOrDigit s) in t = rev t)"

text \<open>The ASCII letters and digits: \<open>A\<close> to \<open>Z\<close>, \<open>a\<close> to \<open>z\<close>, \<open>0\<close> to \<open>9\<close>.\<close>

definition isAsciiLetterOrDigit :: "code_unit \<Rightarrow> bool" where
  "isAsciiLetterOrDigit c = (isUpperAZ c \<or> isLowerAZ c \<or> isDigit c)"

text \<open>
  The rules of the interpreter, in the words of the specification: where a text occurs,
  where it occurs as a phrase (no word character right before or right after it), and the
  positions of a string, from 0 to its length.
\<close>

definition occurs_at :: "jsstring \<Rightarrow> nat \<Rightarrow> jsstring \<Rightarrow> bool" where
  "occurs_at s i t = (take (length t) (drop i s) = t)"

definition positions :: "jsstring \<Rightarrow> nat list" where
  "positions s = [0..<Suc (length s)]"

definition phrase_at :: "jsstring \<Rightarrow> jsstring \<Rightarrow> nat \<Rightarrow> bool" where
  "phrase_at s ph i = (occurs_at s i ph \<and> \<not> wordBefore s i \<and> \<not> wordAt s (i + length ph))"

definition has_phrase :: "jsstring \<Rightarrow> jsstring \<Rightarrow> bool" where
  "has_phrase s ph = list_ex (phrase_at s ph) (positions s)"

text \<open>
  The number rule as amended, \<open>longer than N character\<close> with or without a final \<open>s\<close>:
  the leftmost place where \<open>longer than\<close> and a space are followed by a run of digits
  (taken whole) and by a space and \<open>character\<close>; the result is the run of digits.
\<close>

definition digits_at :: "jsstring \<Rightarrow> nat \<Rightarrow> jsstring" where
  "digits_at s i = takeWhile isDigit (drop i s)"

definition longer_than_at :: "jsstring \<Rightarrow> nat \<Rightarrow> bool" where
  "longer_than_at s i =
     (occurs_at s i (str ''longer than '')
      \<and> digits_at s (i + 12) \<noteq> []
      \<and> occurs_at s (i + 12 + length (digits_at s (i + 12))) (str '' character''))"

definition longer_than :: "jsstring \<Rightarrow> jsstring option" where
  "longer_than s = map_option (\<lambda>i. digits_at s (i + 12)) (find (longer_than_at s) (positions s))"

text \<open>
  The letter rules as amended: \<open>the_letter\<close> is the lower-case letter after the leftmost
  \<open>contain the letter\<close>, \<open>contains the letter\<close> or \<open>containing the letter\<close>;
  \<open>containing\<close> is the looser rule, the letter after the leftmost \<open>containing\<close> or
  \<open>containing the\<close>.
\<close>

definition letter_at :: "jsstring \<Rightarrow> nat \<Rightarrow> jsstring option" where
  "letter_at s i = (if i < length s \<and> isLowerAZ (s ! i) then Some [s ! i] else None)"

definition letter_after :: "jsstring \<Rightarrow> nat \<Rightarrow> jsstring \<Rightarrow> jsstring option" where
  "letter_after s i t = (if occurs_at s i t then letter_at s (i + length t) else None)"

definition the_letter_at :: "jsstring \<Rightarrow> nat \<Rightarrow> jsstring option" where
  "the_letter_at s i =
     first_some (letter_after s i)
       [str ''containing the letter '', str ''contains the letter '', str ''contain the letter '']"

definition the_letter :: "jsstring \<Rightarrow> jsstring option" where
  "the_letter s = first_some (the_letter_at s) (positions s)"

definition containing_at :: "jsstring \<Rightarrow> nat \<Rightarrow> jsstring option" where
  "containing_at s i =
     first_some (letter_after s i) [str ''containing the '', str ''containing '']"

definition containing :: "jsstring \<Rightarrow> jsstring option" where
  "containing s = first_some (containing_at s) (positions s)"

text \<open>A non-empty run of decimal digits.\<close>

definition all_digits :: "jsstring \<Rightarrow> bool" where
  "all_digits v = (v \<noteq> [] \<and> list_all isDigit v)"

text \<open>
  The four rules as amended, each giving at most one entry, and the interpreter's result
  as their concatenation in the order of the rules. The number rule gives \<open>N + 1\<close>;
  \<open>small_number\<close> says that \<open>N + 1\<close> is at most \<open>2^53\<close>.
\<close>

definition word_count_rule :: "jsstring \<Rightarrow> bag" where
  "word_count_rule l =
     (if has_phrase l (str ''single word'') \<or> has_phrase l (str ''one word'')
         \<or> has_phrase l (str ''1 word'')
      then [(str ''word_count'', JNum (Num 1))] else [])"

definition palindrome_rule :: "jsstring \<Rightarrow> bag" where
  "palindrome_rule l =
     (if str_includes l (str ''palindromic'') \<or> str_includes l (str ''palindrome'')
         \<or> str_includes l (str ''palindromes'')
      then [(str ''is_palindrome'', JBool True)] else [])"

definition min_length_rule :: "jsstring \<Rightarrow> bag" where
  "min_length_rule l =
     (case longer_than l of
        Some ds \<Rightarrow> [(str ''min_length'', JNum (Num (digits_value ds + 1)))]
      | None \<Rightarrow> [])"

definition contains_rule :: "jsstring \<Rightarrow> bag" where
  "contains_rule l =
     (case the_letter l of
        Some c \<Rightarrow> [(str ''contains_character'', JStr c)]
      | None \<Rightarrow>
          (case containing l of
             Some c \<Rightarrow> [(str ''contains_character'', JStr c)]
           | None \<Rightarrow> []))"

definition interpret_rules :: "jsstring \<Rightarrow> bag" where
  "interpret_rules l =
     word_count_rule l @ palindrome_rule l @ min_length_rule l @ contains_rule l"

definition small_number :: "jsstring \<Rightarrow> bool" where
  "small_number l =
     (case longer_than l of None \<Rightarrow> True | Some ds \<Rightarrow> digits_value ds + 1 \<le> 2 ^ 53)"

text \<open>
  The number rule and the stricter letter rule as the specification states them:
  \<open>longer than N characters\<close>, in the plural, gives \<open>N + 1\<close>; the stricter letter pattern
  is \<open>contains the letter\<close> or \<open>containing the letter\<close>. \<open>stated_rules\<close> is the
  interpreter's result by the rules as stated.
\<close>

definition stated_longer_than_at :: "jsstring \<Rightarrow> nat \<Rightarrow> bool" where
  "stated_longer_than_at s i =
     (occurs_at s i (str ''longer than '')
      \<and> digits_at s (i + 12) \<noteq> []
      \<and> occurs_at s (i + 12 + length (digits_at s (i + 12))) (str '' characters''))"

definition stated_longer_than :: "jsstring \<Rightarrow> jsstring option" where
  "stated_longer_than s =
     map_option (\<lambda>i. digits_at s (i + 12)) (find (stated_longer_than_at s) (positions s))"

definition stated_the_letter_at :: "jsstring \<Rightarrow> nat \<Rightarrow> jsstring option" where
  "stated_the_letter_at s i =
     first_some (letter_after s i) [str ''containing the letter '', str ''contains the letter '']"

definition stated_the_letter :: "jsstring \<Rightarrow> jsstring option" where
  "stated_the_letter s = first_some (stated_the_letter_at s) (positions s)"

definition stated_rules :: "jsstring \<Rightarrow> bag" where
  "stated_rules l =
     word_count_rule l @ palindrome_rule l
     @ (case stated_longer_than l of
          Some ds \<Rightarrow> [(str ''min_length'', JNum (Num (digits_value ds + 1)))]
        | None \<Rightarrow> [])
     @ (case stated_the_letter l of
          Some c \<Rightarrow> [(str ''contains_character'', JStr c)]
        | None \<Rightarrow>
            (case containing l of
               Some c \<Rightarrow> [(str ''contains_character'', JStr c)]
             | None \<Rightarrow> []))"

text \<open>
  For the proofs: the entry the parser computes for \<open>min_length\<close>, \<open>parseInt\<close> of the
  digits plus one in double arithmetic, and the entries of its four steps.
\<close>

definition min_length_computed :: "jsstring \<Rightarrow> bag" where
  "min_length_computed l =
     (case longer_than l of
        Some ds \<Rightarrow> [(str ''min_length'', JNum (js_add (to_double (digits_value ds)) 1))]
      | None \<Rightarrow> [])"

definition computed_entries :: "jsstring \<Rightarrow> bag" where
  "computed_entries l =
     word_count_rule l @ palindrome_rule l @ min_length_computed l @ contains_rule l"

text \<open>
  The filter predicate set of the specification: each of the five named predicates is
  absent or carries a value of its type. \<open>satisfies\<close> is the conjunction of the predicates
  present, the fifth being that the lower-cased stored value contains the lower-cased
  character. \<open>params_of\<close> writes a predicate set as query parameters, numbers in decimal.
\<close>

record predicate_set =
  p_is_palindrome :: "bool option"
  p_min_length :: "nat option"
  p_max_length :: "nat option"
  p_word_count :: "nat option"
  p_contains_character :: "jsstring option"

definition satisfies :: "platform \<Rightarrow> predicate_set \<Rightarrow> string_record \<Rightarrow> bool" where
  "satisfies P ps r =
     ((case p_is_palindrome ps of None \<Rightarrow> True | Some v \<Rightarrow> is_palindrome (properties r) = v)
      \<and> (case p_min_length ps of None \<Rightarrow> True | Some n \<Rightarrow> n \<le> str_length (properties r))
      \<and> (case p_max_length ps of None \<Rightarrow> True | Some n \<Rightarrow> str_length (properties r) \<le> n)
      \<and> (case p_word_count ps of None \<Rightarrow> True | Some n \<Rightarrow> word_count (properties r) = n)
      \<and> (case p_contains_character ps of None \<Rightarrow> True
          | Some c \<Rightarrow> str_includes (toLowerCase P (rec_value r)) (toLowerCase P c)))"

definition param_entry :: "jsstring \<Rightarrow> jsstring option \<Rightarrow> params" where
  "param_entry k v = (case v of None \<Rightarrow> [] | Some t \<Rightarrow> [(k, t)])"

definition params_of :: "predicate_set \<Rightarrow> params" where
  "params_of ps =
     param_entry (str ''is_palindrome'')
       (map_option (\<lambda>v. if v then str ''true'' else str ''false'') (p_is_palindrome ps))
     @ param_entry (str ''min_length'') (map_option (\<lambda>n. decimal (int n)) (p_min_length ps))
     @ param_entry (str ''max_length'') (map_option (\<lambda>n. decimal (int n)) (p_max_length ps))
     @ param_entry (str ''word_count'') (map_option (\<lambda>n. decimal (int n)) (p_word_count ps))
     @ param_entry (str ''contains_character'') (p_contains_character ps)"

definition representable :: "predicate_set \<Rightarrow> bool" where
  \<comment> \<open>the numbers of the set are exact as doubles\<close>
  "representable ps =
     ((case p_min_length ps of None \<Rightarrow> True | Some n \<Rightarrow> int n \<le> 2 ^ 53)
      \<and> (case p_max_length ps of None \<Rightarrow> True | Some n \<Rightarrow> int n \<le> 2 ^ 53)
      \<and> (case p_word_count ps of None \<Rightarrow> True | Some n \<Rightarrow> int n \<le> 2 ^ 53))"

definition sample_store :: store where
  \<comment> \<open>the store after the POSTs of \<open>Apple\<close>, \<open>racecar\<close> and \<open>Level up\<close>\<close>
  "sample_store =
     snd (fetch_B ascii_host (post_request (str ''Level up''))
       (snd (fetch_B ascii_host (post_request (str ''racecar'')) apple_store)))"

definition sample_predicates :: predicate_set where
  "sample_predicates =
     \<lparr> p_is_palindrome = Some True, p_min_length = Some 5, p_max_length = Some 7,
       p_word_count = None, p_contains_character = Some (str ''R'') \<rparr>"

text \<open>
  The checks of GET /strings in the words of the specification: a present
  \<open>is_palindrome\<close> that is neither \<open>true\<close> nor \<open>false\<close>, a present \<open>min_length\<close>,
  \<open>max_length\<close> or \<open>word_count\<close> that is not a run of digits, a present empty
  \<open>contains_character\<close>. Only the first value of a name counts.
\<close>

definition recognised :: "jsstring list" where
  "recognised =
     [str ''is_palindrome'', str ''min_length'', str ''max_length'', str ''word_count'',
      str ''contains_character'']"

definition not_boolean :: "params \<Rightarrow> jsstring \<Rightarrow> bool" where
  "not_boolean ps k =
     (case map_of ps k of None \<Rightarrow> False | Some v \<Rightarrow> v \<noteq> str ''true'' \<and> v \<noteq> str ''false'')"

definition not_integer :: "params \<Rightarrow> jsstring \<Rightarrow> bool" where
  "not_integer ps k = (case map_of ps k of None \<Rightarrow> False | Some v \<Rightarrow> \<not> all_digits v)"

definition empty_value :: "params \<Rightarrow> jsstring \<Rightarrow> bool" where
  "empty_value ps k = (map_of ps k = Some [])"

definition malformed :: "params \<Rightarrow> bool" where
  "malformed ps =
     (not_boolean ps (str ''is_palindrome'') \<or> not_integer ps (str ''min_length'')
      \<or> not_integer ps (str ''max_length'') \<or> not_integer ps (str ''word_count'')
      \<or> empty_value ps (str ''contains_character''))"

text \<open>
  The invariant of the store: the keys are distinct, and every entry's key is its record's
  \<open>id\<close>, its \<open>sha256_hash\<close> property, and the digest \<open>computeSHA256\<close> gives for its value.
  \<open>lowercase_hex\<close>: digits and \<open>a\<close> to \<open>f\<close> only.
\<close>

definition entry_ok :: "platform \<Rightarrow> jsstring \<times> string_record \<Rightarrow> bool" where
  "entry_ok P e =
     (rec_id (snd e) = fst e \<and> sha256_hash (properties (snd e)) = fst e
      \<and> computeSHA256 P (rec_value (snd e)) = Inr (fst e))"

definition store_inv :: "platform \<Rightarrow> store \<Rightarrow> bool" where
  "store_inv P st = (distinct (map fst st) \<and> list_all (entry_ok P) st)"




text \<open>
  The stores the handlers build: the invariant above, and no stored value is empty.
\<close>

definition store_ok :: "platform \<Rightarrow> store \<Rightarrow> bool" where
  "store_ok P st = (store_inv P st \<and> list_all (\<lambda>e. rec_value (snd e) \<noteq> []) st)"

text \<open>
  In a store built by the handler of \<open>src/unnamed/part_000\<close> every value is trimmed.
\<close>

definition values_trimmed :: "store \<Rightarrow> bool" where
  "values_trimmed st = list_all (\<lambda>e. trim (rec_value (snd e)) = rec_value (snd e)) st"

section \<open>The analyzer: proofs\<close>

lemma host_ok_ascii_host: "host_ok ascii_host"
  by (simp add: host_ok_def ascii_host_def)

lemma replace_all_cls_filter: "replace_all_cls cls s = filter (\<lambda>c. \<not> cls c) s"
  by (induction s) (simp_all add: replace_all_cls_def)

lemma reverse_join: "concat (rev (map (\<lambda>c. [c]) xs)) = rev xs"
  by (induction xs) simp_all

lemma nonWordOrUnderscore_iff: "(\<not> nonWordOrUnderscore c) = isAsciiLetterOrDigit c"
  by (auto simp: nonWordOrUnderscore_def isAsciiLetterOrDigit_def isWordChar_def isUpperAZ_def
      isLowerAZ_def isDigit_def)

lemma isPalindrome_filter_rev:
  "isPalindrome P s = (let t = toLowerCase P (filter isAsciiLetterOrDigit s) in t = rev t)"
  by (simp add: isPalindrome_def replace_all_cls_filter reverse_join nonWordOrUnderscore_iff
      Let_def)

lemma isAsciiLetterOrDigit_ascii: "isAsciiLetterOrDigit c \<Longrightarrow> isAscii c"
  by (auto simp: isAsciiLetterOrDigit_def isUpperAZ_def isLowerAZ_def isDigit_def isAscii_def
      word_le_nat_alt word_less_nat_alt)

lemma toLowerCase_cleaned:
  assumes "host_ok P"
  shows "toLowerCase P (filter isAsciiLetterOrDigit s) = ascii_lower (filter isAsciiLetterOrDigit s)"
proof -
  have "list_all isAscii (filter isAsciiLetterOrDigit s)"
    by (simp add: list_all_iff isAsciiLetterOrDigit_ascii)
  with assms show ?thesis
    by (simp add: host_ok_def)
qed

lemma isPalindrome_ascii:
  "host_ok P \<Longrightarrow>
   isPalindrome P s = (let t = ascii_lower (filter isAsciiLetterOrDigit s) in t = rev t)"
  by (simp add: isPalindrome_filter_rev toLowerCase_cleaned)

lemma ascii_letter_or_digit: "isAscii c \<Longrightarrow> isLetterOrDigit c = isAsciiLetterOrDigit c"
  by (auto simp: isAscii_def isLetterOrDigit_def isAsciiLetterOrDigit_def
      word_less_nat_alt word_le_nat_alt)

lemma palindrome_by_spec_ascii:
  assumes "list_all isAscii s"
  shows "isPalindrome P s = palindrome_by_spec P s"
proof -
  from assms have "filter isLetterOrDigit s = filter isAsciiLetterOrDigit s"
    by (intro filter_cong refl) (simp add: list_all_iff ascii_letter_or_digit)
  then show ?thesis
    by (simp add: isPalindrome_filter_rev palindrome_by_spec_def)
qed

text \<open>
  C9, as stated, fails: in \<open>U+00E9 a\<close> both characters are letters, the string is not its
  own reversal, and \<open>isPalindrome\<close> answers true, because it removes the non-ASCII letter.
\<close>

theorem isPalindrome_non_ascii_letter:
  "isLetterOrDigit 0xE9 \<and> isLetterOrDigit 0x61
   \<and> toLowerCase ascii_host [0xE9, 0x61] = [0xE9, 0x61]
   \<and> \<not> palindrome_by_spec ascii_host [0xE9, 0x61]
   \<and> isPalindrome ascii_host [0xE9, 0x61]"
  by code_simp

text \<open>
  C9, as amended. For every string, \<open>isPalindrome\<close> deletes every code unit that is not an
  ASCII letter or digit (\<open>A\<close> to \<open>Z\<close>, \<open>a\<close> to \<open>z\<close>, \<open>0\<close> to \<open>9\<close>), lower-cases what
  remains and compares it with its reversal; a string with nothing left is a palindrome;
  on a string of ASCII characters this is the test the specification states; and
  \<open>racecar\<close>, \<open>Race, car!\<close> and the empty string are palindromes while \<open>ab\<close> is not.
\<close>

theorem isPalindrome_strip_lower_reverse:
  assumes "host_ok P"
  shows "isPalindrome P s = (let t = toLowerCase P (filter isAsciiLetterOrDigit s) in t = rev t)
       \<and> isPalindrome P s = (let t = ascii_lower (filter isAsciiLetterOrDigit s) in t = rev t)
       \<and> (filter isAsciiLetterOrDigit s = [] \<longrightarrow> isPalindrome P s)
       \<and> (list_all isAscii s \<longrightarrow>
            isPalindrome P s = palindrome_by_spec P s)
       \<and> isPalindrome P (str ''racecar'')
       \<and> isPalindrome P (str ''Race, car!'')
       \<and> isPalindrome P []
       \<and> \<not> isPalindrome P (str ''ab'')"
proof -
  have eq: "\<And>v. isPalindrome P v
                 = (let t = ascii_lower (filter isAsciiLetterOrDigit v) in t = rev t)"
    using assms by (rule isPalindrome_ascii)
  have e1: "let t = ascii_lower (filter isAsciiLetterOrDigit (str ''racecar'')) in t = rev t"
    by code_simp
  have e2: "let t = ascii_lower (filter isAsciiLetterOrDigit (str ''Race, car!'')) in t = rev t"
    by code_simp
  have e3: "\<not> (let t = ascii_lower (filter isAsciiLetterOrDigit (str ''ab'')) in t = rev t)"
    by code_simp
  have e4: "filter isAsciiLetterOrDigit s = [] \<longrightarrow> isPalindrome P s"
    by (simp add: eq ascii_lower_def)
  have e5: "isPalindrome P []"
    by (simp add: eq ascii_lower_def)
  have e6: "list_all isAscii s \<longrightarrow>
            isPalindrome P s = palindrome_by_spec P s"
    by (simp add: palindrome_by_spec_ascii)
  have e7: "isPalindrome P s
            = (let t = toLowerCase P (filter isAsciiLetterOrDigit s) in t = rev t)"
    by (rule isPalindrome_filter_rev)
  have e8: "isPalindrome P s = (let t = ascii_lower (filter isAsciiLetterOrDigit s) in t = rev t)"
    by (rule eq)
  have e9: "isPalindrome P (str ''racecar'')" "isPalindrome P (str ''Race, car!'')"
    "\<not> isPalindrome P (str ''ab'')"
    using e1 e2 e3 by (simp_all only: eq simp_thms)
  from e4 e5 e6 e7 e8 e9 show ?thesis
    by (intro conjI)
qed

theorem isPalindrome_strip_lower_reverse_witness:
  "host_ok ascii_host
   \<and> isPalindrome ascii_host (str ''No lemon, no melon'')
   \<and> filter isAsciiLetterOrDigit (str ''No lemon, no melon'') = str ''Nolemonnomelon''
   \<and> list_all isAscii (str ''No lemon, no melon'')
   \<and> palindrome_by_spec ascii_host (str ''No lemon, no melon'')"
proof -
  have f: "filter isAsciiLetterOrDigit (str ''No lemon, no melon'') = str ''Nolemonnomelon''"
    by code_simp
  have p: "let t = ascii_lower (str ''Nolemonnomelon'') in t = rev t"
    by code_simp
  have a: "list_all isAscii (str ''No lemon, no melon'')"
    by code_simp
  from isPalindrome_strip_lower_reverse [OF host_ok_ascii_host, of "str ''No lemon, no melon''"]
  have "isPalindrome ascii_host (str ''No lemon, no melon'')
        = (let t = ascii_lower (filter isAsciiLetterOrDigit (str ''No lemon, no melon''))
           in t = rev t)"
    and "list_all isAscii (str ''No lemon, no melon'') \<longrightarrow>
         isPalindrome ascii_host (str ''No lemon, no melon'')
         = palindrome_by_spec ascii_host (str ''No lemon, no melon'')"
    by blast+
  with f p a show ?thesis
    by (simp add: host_ok_ascii_host)
qed

section \<open>Regular expressions: proofs\<close>

lemma first_some_find:
  "first_some f xs = (case find (\<lambda>x. f x \<noteq> None) xs of None \<Rightarrow> None | Some x \<Rightarrow> f x)"
  by (induction xs) (auto split: option.splits)

lemma first_some_None_iff: "first_some f xs = None \<longleftrightarrow> (\<forall>x\<in>set xs. f x = None)"
  by (induction xs) (auto split: option.splits)

lemma first_some_cong_list:
  "(\<And>x. x \<in> set xs \<Longrightarrow> f x = g x) \<Longrightarrow> first_some f xs = first_some g xs"
  by (induction xs) (auto split: option.splits)

lemma exec_positions: "exec r s = first_some (\<lambda>i. map_option snd (match_at r s i)) (positions s)"
  by (simp add: exec_def positions_def)

lemma test_iff: "test r s \<longleftrightarrow> (\<exists>i\<in>set (positions s). match_at r s i \<noteq> None)"
  by (simp add: test_def exec_positions first_some_None_iff)

lemma matches_Lit_occurs:
  "matches (Lit cs) s st = (if occurs_at s (fst st) cs then [(fst st + length cs, snd st)] else [])"
  by (simp add: occurs_at_def)

lemma occurs_at_bound: "occurs_at s i t \<Longrightarrow> t \<noteq> [] \<Longrightarrow> i + length t \<le> length s"
proof -
  assume "occurs_at s i t" and ne: "t \<noteq> []"
  then have "length (take (length t) (drop i s)) = length t" by (simp add: occurs_at_def)
  with ne show ?thesis by (cases "length s \<le> i") auto
qed

lemma occurs_at_nth: "occurs_at s i t \<Longrightarrow> k < length t \<Longrightarrow> s ! (i + k) = t ! k"
proof -
  assume a: "occurs_at s i t" and k: "k < length t"
  from k have ne: "t \<noteq> []" by auto
  from a ne have b: "i + length t \<le> length s" by (rule occurs_at_bound)
  from a have "take (length t) (drop i s) ! k = t ! k" by (simp add: occurs_at_def)
  with k b show ?thesis by simp
qed

lemma occurs_at_wordAt:
  "occurs_at s i t \<Longrightarrow> t \<noteq> [] \<Longrightarrow> isWordChar (hd t) \<Longrightarrow> wordAt s i"
  using occurs_at_bound [of s i t] occurs_at_nth [of s i t 0]
  by (cases t) (auto simp: wordAt_def)

lemma occurs_at_wordBefore:
  "occurs_at s i t \<Longrightarrow> t \<noteq> [] \<Longrightarrow> isWordChar (last t) \<Longrightarrow> wordBefore s (i + length t)"
  using occurs_at_bound [of s i t] occurs_at_nth [of s i t "length t - 1"]
  by (cases t rule: rev_cases) (auto simp: wordBefore_def)

lemma str_includes_iff: "str_includes s t \<longleftrightarrow> (\<exists>i\<le>length s. occurs_at s i t)"
proof (induction s)
  case Nil
  show ?case by (auto simp: occurs_at_def)
next
  case (Cons x xs)
  have p: "prefix t (x # xs) \<longleftrightarrow> occurs_at (x # xs) 0 t"
    by (auto simp: occurs_at_def prefix_def take_eq_Nil dest: sym) (metis append_eq_conv_conj)
  have q: "(\<exists>i\<le>length xs. occurs_at xs i t) \<longleftrightarrow> (\<exists>i. 0 < i \<and> i \<le> length (x # xs) \<and> occurs_at (x # xs) i t)"
    by (auto simp: occurs_at_def) (metis Suc_le_mono drop_Suc_Cons gr0_conv_Suc)
  show ?case
    unfolding str_includes.simps Cons.IH p q
    by (metis bot_nat_0.not_eq_extremum le0)
qed

lemma lit_single_word:
  "str ''single word'' \<noteq> []" "isWordChar (hd (str ''single word''))" "isWordChar (last (str ''single word''))"
  "str ''one word'' \<noteq> []" "isWordChar (hd (str ''one word''))" "isWordChar (last (str ''one word''))"
  "str ''1 word'' \<noteq> []" "isWordChar (hd (str ''1 word''))" "isWordChar (last (str ''1 word''))"
  by (simp_all add: str_def isWordChar_def isUpperAZ_def isLowerAZ_def isDigit_def)

lemma phrase_at_word:
  assumes "t \<noteq> []" "isWordChar (hd t)" "isWordChar (last t)"
  shows "phrase_at s t i \<longleftrightarrow>
         occurs_at s i t \<and> wordBefore s i \<noteq> wordAt s i
         \<and> wordBefore s (i + length t) \<noteq> wordAt s (i + length t)"
  using assms occurs_at_wordAt [of s i t] occurs_at_wordBefore [of s i t]
  by (auto simp: phrase_at_def)

lemma match_single_word:
  "match_at rx_single_word s i \<noteq> None \<longleftrightarrow>
     phrase_at s (str ''single word'') i \<or> phrase_at s (str ''one word'') i
     \<or> phrase_at s (str ''1 word'') i"
  unfolding phrase_at_word [OF lit_single_word(1-3)] phrase_at_word [OF lit_single_word(4-6)]
    phrase_at_word [OF lit_single_word(7-9)]
  by (auto simp: match_at_def rx_single_word_def matches_Lit_occurs
      simp del: matches.simps(1) split: list.splits if_splits)

lemma test_single_word:
  "test rx_single_word s \<longleftrightarrow>
     has_phrase s (str ''single word'') \<or> has_phrase s (str ''one word'')
     \<or> has_phrase s (str ''1 word'')"
  unfolding test_iff match_single_word has_phrase_def list_ex_iff by blast

lemma set_positions: "set (positions s) = {i. i \<le> length s}"
  by (auto simp: positions_def)

lemma includes_positions: "str_includes s t \<longleftrightarrow> (\<exists>i\<in>set (positions s). occurs_at s i t)"
  by (simp add: str_includes_iff set_positions)

lemma occurs_at_append: "occurs_at s i (a @ b) \<Longrightarrow> occurs_at s i a"
proof -
  assume "occurs_at s i (a @ b)"
  then have "take (length a) (take (length (a @ b)) (drop i s)) = take (length a) (a @ b)"
    by (simp only: occurs_at_def)
  then show ?thesis by (simp add: occurs_at_def min_def)
qed

lemma match_palindromic:
  "match_at rx_palindromic s i \<noteq> None \<longleftrightarrow>
     occurs_at s i (str ''palindromic'') \<or> occurs_at s i (str ''palindrome'')
     \<or> occurs_at s i (str ''palindromic strings'') \<or> occurs_at s i (str ''palindromes'')"
  by (auto simp: match_at_def rx_palindromic_def matches_Lit_occurs
      simp del: matches.simps(1) split: list.splits if_splits)

lemma palindromic_strings: "str ''palindromic strings'' = str ''palindromic'' @ str '' strings''"
  by (simp add: str_def)

lemma test_palindromic:
  "test rx_palindromic s \<longleftrightarrow>
     str_includes s (str ''palindromic'') \<or> str_includes s (str ''palindrome'')
     \<or> str_includes s (str ''palindromes'')"
  unfolding test_iff match_palindromic includes_positions palindromic_strings
  using occurs_at_append by blast

lemma length_longer_than: "length (str ''longer than '') = 12"
  by (simp add: str_def)

lemma lit_character: "str '' character'' \<noteq> []" "\<not> isDigit (hd (str '' character''))"
  by (simp_all add: str_def isDigit_def)

lemma digits_at_nth:
  assumes "n < length (digits_at s j)"
  shows "j + n < length s \<and> isDigit (s ! (j + n))"
proof -
  let ?ds = "takeWhile isDigit (drop j s)"
  from assms have n: "n < length ?ds" by (simp add: digits_at_def)
  have le: "length ?ds \<le> length (drop j s)" by (rule length_takeWhile_le)
  from n have "?ds ! n \<in> set ?ds" by (rule nth_mem)
  then have d: "isDigit (?ds ! n)" by (rule set_takeWhileD [THEN conjunct2])
  from n have "?ds ! n = drop j s ! n" by (rule takeWhile_nth)
  with d n le show ?thesis by simp
qed

lemma no_character_inside_digits:
  assumes "n < length (digits_at s j)"
  shows "\<not> occurs_at s (j + n) (str '' character'')"
proof
  assume o: "occurs_at s (j + n) (str '' character'')"
  have "0 < length (str '' character'')" using lit_character(1) by simp
  with o have "s ! (j + n + 0) = str '' character'' ! 0" by (rule occurs_at_nth)
  then have "s ! (j + n) = hd (str '' character'')"
    using lit_character(1) by (simp add: hd_conv_nth)
  with digits_at_nth [OF assms] lit_character(2) show False by simp
qed

lemma matches_tail:
  "matches (Seq (Lit c) (Opt (Lit t))) s (k, g) =
     (if occurs_at s k c
      then (if occurs_at s (k + length c) t then [(k + length c + length t, g)] else [])
           @ [(k + length c, g)]
      else [])"
  by (simp add: matches_Lit_occurs del: matches.simps(1))

lemma take_digits: "take (length (digits_at s j)) (drop j s) = digits_at s j"
  by (simp add: digits_at_def takeWhile_eq_take [symmetric])

lemma matches_digits_group:
  "matches (Grp (PlusCls isDigit)) s (j, g) =
     map (\<lambda>n. (j + n, Some (take n (drop j s)))) (rev [1..<Suc (length (digits_at s j))])"
  by (simp add: digits_at_def rev_map [symmetric] comp_def)

lemma concat_head_only:
  "(\<And>n. n \<in> set ns \<Longrightarrow> F n = []) \<Longrightarrow> concat (map F (n0 # ns)) = F n0"
  by (induction ns) auto

lemma match_longer:
  "map_option snd (match_at rx_longer s i) =
     (if longer_than_at s i then Some (Some (digits_at s (i + 12))) else None)"
proof (cases "occurs_at s i (str ''longer than '')")
  case False
  then show ?thesis
    by (simp add: match_at_def rx_longer_def matches_Lit_occurs longer_than_at_def
        del: matches.simps(1))
next
  case True
  let ?j = "i + 12"
  let ?m = "length (digits_at s ?j)"
  let ?F = "\<lambda>n. matches (Seq (Lit (str '' character'')) (Opt (Lit (str ''s'')))) s
                   (?j + n, Some (take n (drop ?j s)))"
  define R2 where "R2 = Seq (Lit (str '' character'')) (Opt (Lit (str ''s'')))"
  have rx: "rx_longer = Seq (Lit (str ''longer than '')) (Seq (Grp (PlusCls isDigit)) R2)"
    by (simp add: rx_longer_def R2_def)
  have "matches rx_longer s (i, None)
        = concat (map (matches R2 s) (matches (Grp (PlusCls isDigit)) s (?j, None)))"
    using True
    by (simp add: rx matches_Lit_occurs length_longer_than
        del: matches.simps(1) matches.simps(6) matches.simps(7))
  then have m: "matches rx_longer s (i, None) = concat (map ?F (rev [1..<Suc ?m]))"
    by (simp add: matches_digits_group comp_def R2_def del: matches.simps)
  show ?thesis
  proof (cases "?m = 0")
    case True
    with m show ?thesis
      by (simp add: match_at_def longer_than_at_def)
  next
    case False
    then have "1 \<le> ?m"
      by (simp add: Suc_le_eq)
    then have r: "rev [1..<Suc ?m] = ?m # rev [1..<?m]"
      by simp
    have "\<And>n. n \<in> set (rev [1..<?m]) \<Longrightarrow> ?F n = []"
      using no_character_inside_digits [of _ s ?j]
      by (simp add: matches_tail del: matches.simps)
    then have "concat (map ?F (?m # rev [1..<?m])) = ?F ?m"
      by (rule concat_head_only)
    with m r have "matches rx_longer s (i, None) = ?F ?m"
      by simp
    with False True show ?thesis
      by (simp add: match_at_def longer_than_at_def matches_tail take_digits
          del: matches.simps)
  qed
qed

lemma first_some_if:
  "first_some (\<lambda>i. if Q i then Some (g i) else None) xs = map_option g (find Q xs)"
  by (induction xs) auto

lemma exec_longer: "exec rx_longer s = map_option Some (longer_than s)"
  by (simp add: exec_positions match_longer first_some_if longer_than_def option.map_comp
      comp_def)

lemma occurs_at_append_iff:
  "occurs_at s i (a @ b) \<longleftrightarrow> occurs_at s i a \<and> occurs_at s (i + length a) b"
proof
  assume o: "occurs_at s i (a @ b)"
  then have a: "occurs_at s i a" by (rule occurs_at_append)
  from o have "drop (length a) (take (length a + length b) (drop i s)) = drop (length a) (a @ b)"
    by (simp add: occurs_at_def)
  then have "occurs_at s (i + length a) b"
    by (simp add: occurs_at_def drop_take add.commute)
  with a show "occurs_at s i a \<and> occurs_at s (i + length a) b" ..
next
  assume "occurs_at s i a \<and> occurs_at s (i + length a) b"
  then have a: "take (length a) (drop i s) = a" and b: "take (length b) (drop (i + length a) s) = b"
    by (simp_all add: occurs_at_def)
  have "take (length a + length b) (drop i s)
        = take (length a) (drop i s) @ take (length b) (drop (length a) (drop i s))"
    by (rule take_add)
  with a b show "occurs_at s i (a @ b)"
    by (simp add: occurs_at_def add.commute)
qed

lemma matches_letter_group:
  "matches (Grp (Cls isLowerAZ)) s (k, g) =
     (case letter_at s k of None \<Rightarrow> [] | Some c \<Rightarrow> [(Suc k, Some c)])"
  by (simp add: letter_at_def take_Suc_conv_app_nth)

lemma lit_containing:
  "str ''containing the '' = str ''containing '' @ str ''the ''"
  "str ''containing the letter '' = str ''contain'' @ str ''ing'' @ str '' the letter ''"
  "str ''contains the letter '' = str ''contain'' @ str ''s'' @ str '' the letter ''"
  "str ''contain the letter '' = str ''contain'' @ str '' the letter ''"
  by (simp_all add: str_def)

lemma match_containing:
  "map_option snd (match_at rx_containing s i) = map_option Some (containing_at s i)"
  by (simp add: match_at_def rx_containing_def matches_Lit_occurs matches_letter_group
      containing_at_def letter_after_def lit_containing occurs_at_append_iff add.assoc
      del: matches.simps(1) matches.simps(2) matches.simps(7)
      split: option.splits)

lemma match_contains_letter:
  "map_option snd (match_at rx_contains_letter s i) = map_option Some (the_letter_at s i)"
  by (simp add: match_at_def rx_contains_letter_def matches_Lit_occurs matches_letter_group
      the_letter_at_def letter_after_def lit_containing occurs_at_append_iff add.assoc
      del: matches.simps(1) matches.simps(2) matches.simps(7)
      split: option.splits)

lemma first_some_map_option:
  "first_some (\<lambda>i. map_option g (f i)) xs = map_option g (first_some f xs)"
  by (induction xs) (auto split: option.splits)

lemma exec_containing: "exec rx_containing s = map_option Some (containing s)"
  by (simp add: exec_positions match_containing containing_def first_some_map_option)

lemma exec_contains_letter: "exec rx_contains_letter s = map_option Some (the_letter s)"
  by (simp add: exec_positions match_contains_letter the_letter_def first_some_map_option)

lemma concat_if_eq:
  "concat (map (\<lambda>n. if n = k then [f n] else []) ns) \<noteq> [] \<longleftrightarrow> k \<in> set ns"
  by (induction ns) auto

lemma length_takeWhile_all:
  "length (takeWhile P xs) = length xs \<longleftrightarrow> (\<forall>x\<in>set xs. P x)"
  by (induction xs) auto

lemma test_digits: "test rx_digits v \<longleftrightarrow> all_digits v"
proof -
  let ?m = "length (takeWhile isDigit v)"
  have le: "?m \<le> length v" by (rule length_takeWhile_le)
  have at0: "matches rx_digits v (0, None)
             = concat (map (\<lambda>n. if n = length v then [(n, None)] else []) (rev [1..<Suc ?m]))"
    by (simp add: rx_digits_def comp_def)
  have other: "\<And>i. 0 < i \<Longrightarrow> matches rx_digits v (i, None) = []"
    by (simp add: rx_digits_def)
  have "test rx_digits v \<longleftrightarrow> matches rx_digits v (0, None) \<noteq> []"
  proof
    assume "test rx_digits v"
    then obtain i where "match_at rx_digits v i \<noteq> None"
      by (auto simp: test_iff)
    then show "matches rx_digits v (0, None) \<noteq> []"
      using other [of i] by (cases "i = 0") (auto simp: match_at_def)
  next
    assume "matches rx_digits v (0, None) \<noteq> []"
    then have "match_at rx_digits v 0 \<noteq> None"
      by (simp add: match_at_def split: list.splits)
    then show "test rx_digits v"
      by (auto simp: test_iff set_positions)
  qed
  also have "\<dots> \<longleftrightarrow> 1 \<le> length v \<and> length v \<le> ?m"
    unfolding at0 concat_if_eq by auto
  also have "\<dots> \<longleftrightarrow> v \<noteq> [] \<and> length (takeWhile isDigit v) = length v"
    using le by (cases v) auto
  also have "\<dots> \<longleftrightarrow> all_digits v"
    by (simp add: all_digits_def list_all_iff length_takeWhile_all)
  finally show ?thesis .
qed

lemma digit_not_space: "isDigit c \<Longrightarrow> \<not> isSpace c \<and> c \<noteq> 0x2D \<and> c \<noteq> 0x2B"
  by (auto simp: isDigit_def isSpace_def word_le_nat_alt)

lemma parseInt_digits:
  assumes "all_digits g"
  shows "parseInt g = to_double (digits_value g)"
proof -
  from assms obtain x xs where g: "g = x # xs" and x: "isDigit x" and all: "list_all isDigit g"
    by (cases g) (auto simp: all_digits_def)
  from all have tw: "takeWhile isDigit g = g"
    by (simp add: takeWhile_eq_all_conv list_all_iff)
  from x have ns: "\<not> isSpace x" "x \<noteq> 0x2D" "x \<noteq> 0x2B"
    using digit_not_space by blast+
  from ns have dw: "dropWhile isSpace g = g"
    by (simp add: g)
  show ?thesis
    unfolding parseInt_def dw
    using ns tw by (simp add: g Let_def)
qed

lemma to_double_not_NaN: "to_double n \<noteq> NaN"
  by (simp add: to_double_def Let_def)

lemma digits_at_all_digits: "digits_at s i \<noteq> [] \<Longrightarrow> all_digits (digits_at s i)"
  by (auto simp: all_digits_def digits_at_def list_all_iff dest: set_takeWhileD)

lemma longer_than_all_digits: "longer_than s = Some ds \<Longrightarrow> all_digits ds"
  by (auto simp: longer_than_def longer_than_at_def digits_at_all_digits
      dest!: find_Some_iff [THEN iffD1])

lemma round53_small: "n \<le> 2 ^ 53 \<Longrightarrow> round53 n = n"
  by (simp add: round53_def)

lemma pow_53_1024: "(2::int) ^ 53 < 2 ^ 1024"
  by (rule power_strict_increasing) simp_all

lemma to_double_small: "\<bar>n\<bar> \<le> 2 ^ 53 \<Longrightarrow> to_double n = Num n"
proof -
  assume a: "\<bar>n\<bar> \<le> 2 ^ 53"
  then have r: "round53 \<bar>n\<bar> = \<bar>n\<bar>" by (rule round53_small)
  from a pow_53_1024 have "\<bar>n\<bar> < 2 ^ 1024" by (rule le_less_trans)
  with r show ?thesis
    unfolding to_double_def Let_def by (simp only: r if_True) auto
qed

lemma js_add_small:
  assumes "0 \<le> n" "n + 1 \<le> 2 ^ 53"
  shows "js_add (to_double n) 1 = Num (n + 1)"
proof -
  from assms have "\<bar>n\<bar> \<le> 2 ^ 53" "\<bar>n + 1\<bar> \<le> 2 ^ 53" by simp_all
  then have "to_double n = Num n" "to_double (n + 1) = Num (n + 1)"
    by (simp_all only: to_double_small)
  then show ?thesis by (simp add: js_add_def)
qed

lemma keys_distinct:
  "str ''word_count'' \<noteq> str ''is_palindrome''" "str ''word_count'' \<noteq> str ''min_length''"
  "str ''word_count'' \<noteq> str ''contains_character''" "str ''is_palindrome'' \<noteq> str ''min_length''"
  "str ''is_palindrome'' \<noteq> str ''contains_character''"
  "str ''min_length'' \<noteq> str ''contains_character''"
  by (simp_all add: str_def)

lemma update_fresh: "k \<notin> fst ` set al \<Longrightarrow> AList.update k v al = al @ [(k, v)]"
  by (induction al) auto

lemma keys_word_count_rule: "fst ` set (word_count_rule l) \<subseteq> {str ''word_count''}"
  by (auto simp: word_count_rule_def split: if_splits)

lemma keys_palindrome_rule: "fst ` set (palindrome_rule l) \<subseteq> {str ''is_palindrome''}"
  by (auto simp: palindrome_rule_def split: if_splits)

lemma keys_min_length_computed: "fst ` set (min_length_computed l) \<subseteq> {str ''min_length''}"
  by (auto simp: min_length_computed_def split: option.splits)

lemma keys_contains_rule: "fst ` set (contains_rule l) \<subseteq> {str ''contains_character''}"
  by (auto simp: contains_rule_def split: option.splits)

lemma rule_word_count_spec: "rule_word_count l [] = word_count_rule l"
  by (simp add: rule_word_count_def test_single_word word_count_rule_def)

lemma rule_palindrome_spec:
  assumes "str ''is_palindrome'' \<notin> fst ` set out"
  shows "rule_palindrome l out = out @ palindrome_rule l"
  using assms by (simp add: rule_palindrome_def test_palindromic palindrome_rule_def update_fresh)

lemma rule_longer_spec:
  assumes "str ''min_length'' \<notin> fst ` set out"
  shows "rule_longer l out = out @ min_length_computed l"
proof (cases "longer_than l")
  case None
  then show ?thesis by (simp add: rule_longer_def exec_longer min_length_computed_def)
next
  case (Some ds)
  then have "all_digits ds" by (rule longer_than_all_digits)
  with Some assms show ?thesis
    by (simp add: rule_longer_def exec_longer parseInt_digits to_double_not_NaN
        min_length_computed_def update_fresh)
qed

lemma rule_contains_spec:
  assumes "str ''contains_character'' \<notin> fst ` set out"
  shows "rule_contains l out = out @ contains_rule l"
  using assms
  by (simp add: rule_contains_def exec_contains_letter exec_containing contains_rule_def
      update_fresh split: option.splits)

lemma rules_chain:
  "rule_contains l (rule_longer l (rule_palindrome l (rule_word_count l [])))
   = computed_entries l"
proof -
  have 1: "str ''is_palindrome'' \<notin> fst ` set (word_count_rule l)"
    using keys_word_count_rule [of l] keys_distinct by auto
  have 2: "str ''min_length'' \<notin> fst ` set (word_count_rule l @ palindrome_rule l)"
    using keys_word_count_rule [of l] keys_palindrome_rule [of l] keys_distinct by auto
  have 3: "str ''contains_character''
           \<notin> fst ` set (word_count_rule l @ palindrome_rule l @ min_length_computed l)"
    using keys_word_count_rule [of l] keys_palindrome_rule [of l] keys_min_length_computed [of l]
      keys_distinct by auto
  show ?thesis
    by (simp only: rule_word_count_spec rule_palindrome_spec [OF 1] rule_longer_spec [OF 2]
        rule_contains_spec [OF 3] computed_entries_def append_assoc)
qed

lemma parse_by_rules:
  "parseNaturalLanguageQuery P q =
     (let out = computed_entries (trim (toLowerCase P q)) in if out = [] then None else Some out)"
  by (simp add: parseNaturalLanguageQuery_def rules_chain Let_def)

lemma digits_value_nonneg_aux: "0 \<le> a \<Longrightarrow> list_all isDigit ds \<Longrightarrow> 0 \<le> foldl (\<lambda>a d. 10 * a + (uint d - 0x30)) a ds"
proof (induction ds arbitrary: a)
  case Nil then show ?case by simp
next
  case (Cons d ds)
  from Cons.prems have "0x30 \<le> uint d"
    by (simp add: isDigit_def word_le_def)
  with Cons.prems have "0 \<le> 10 * a + (uint d - 0x30)" by simp
  with Cons show ?case by simp
qed

lemma digits_value_nonneg: "all_digits ds \<Longrightarrow> 0 \<le> digits_value ds"
  by (simp add: digits_value_def all_digits_def digits_value_nonneg_aux)

section \<open>The natural-language route: proofs\<close>

lemma map_of_update_bag:
  "map_of (AList.update k v al) k' = (if k' = k then Some v else map_of al k')"
  by (simp add: update_conv')

lemma key_neq:
  "str ''max_length'' \<noteq> str ''word_count''" "str ''max_length'' \<noteq> str ''is_palindrome''"
  "str ''max_length'' \<noteq> str ''min_length''" "str ''max_length'' \<noteq> str ''contains_character''"
  by (simp_all add: str_def)

lemma rule_word_count_max: "map_of (rule_word_count l out) (str ''max_length'') = map_of out (str ''max_length'')"
  by (simp add: rule_word_count_def map_of_update_bag key_neq Let_def)
lemma rule_palindrome_max: "map_of (rule_palindrome l out) (str ''max_length'') = map_of out (str ''max_length'')"
  by (simp add: rule_palindrome_def map_of_update_bag key_neq)
lemma rule_longer_max: "map_of (rule_longer l out) (str ''max_length'') = map_of out (str ''max_length'')"
  by (simp add: rule_longer_def map_of_update_bag key_neq Let_def split: option.splits)
lemma rule_contains_max: "map_of (rule_contains l out) (str ''max_length'') = map_of out (str ''max_length'')"
  by (simp add: rule_contains_def map_of_update_bag key_neq split: option.splits)

lemma parse_no_max_length:
  "parseNaturalLanguageQuery P q = Some out \<Longrightarrow> bag_get out (str ''max_length'') = None"
  by (auto simp: parseNaturalLanguageQuery_def Let_def bag_get_def rule_word_count_max
      rule_palindrome_max rule_longer_max rule_contains_max split: if_splits)

lemma parse_not_conflicting:
  "parseNaturalLanguageQuery P q = Some out \<Longrightarrow> \<not> conflicting out"
  by (simp add: conflicting_def parse_no_max_length split: option.splits jsval.splits)

lemma nl_route_not_422:
  "natural_language_route ap P req st = Inr (resp, st') \<Longrightarrow> resp \<noteq> json (ErrorBody (str ''Conflicting filters'')) 422"
  by (auto simp: natural_language_route_def Let_def json_def parse_not_conflicting str_def split: if_splits option.splits)

lemma not_conflict_message:
  "str ''Invalid data type for 'value' (must be string)'' \<noteq> str ''Conflicting filters''"
  by (simp add: str_def)

lemma create_record_not_422:
  "create_record P req st v = Inr (resp, st') \<Longrightarrow>
   resp \<noteq> json (ErrorBody (str ''Conflicting filters'')) 422"
  by (auto simp: create_record_def json_def Let_def split: sum.splits option.splits)

lemma post_A_not_422:
  "post_strings_A P req st = Inr (resp, st') \<Longrightarrow>
   resp \<noteq> json (ErrorBody (str ''Conflicting filters'')) 422"
  by (auto simp: post_strings_A_def json_def Let_def
      split: option.splits body_value.splits if_splits dest: create_record_not_422)

lemma post_B_not_422:
  "post_strings_B P req st = Inr (resp, st') \<Longrightarrow>
   resp \<noteq> json (ErrorBody (str ''Conflicting filters'')) 422"
  using not_conflict_message
  by (auto simp: post_strings_B_def json_def Let_def
      split: option.splits body_value.splits if_splits dest: create_record_not_422)

lemma get_string_not_422:
  "get_string h P seg st = Inr (resp, st') \<Longrightarrow>
   resp \<noteq> json (ErrorBody (str ''Conflicting filters'')) 422"
  by (auto simp: get_string_def json_def split: option.splits sum.splits)

lemma delete_string_not_422:
  "delete_string h P seg st = Inr (resp, st') \<Longrightarrow>
   resp \<noteq> json (ErrorBody (str ''Conflicting filters'')) 422"
  by (auto simp: delete_string_def json_def split: option.splits sum.splits)

lemma list_A_not_422:
  "list_strings_A req st = Inr (resp, st') \<Longrightarrow>
   resp \<noteq> json (ErrorBody (str ''Conflicting filters'')) 422"
  by (auto simp: list_strings_A_def json_def Let_def)

lemma list_B_not_422:
  "list_strings_B P req st = Inr (resp, st') \<Longrightarrow>
   resp \<noteq> json (ErrorBody (str ''Conflicting filters'')) 422"
  by (auto simp: list_strings_B_def json_def Let_def split: option.splits)

lemma catch_all_not_422:
  assumes "\<And>resp st'. out = Inr (resp, st') \<Longrightarrow>
             resp \<noteq> json (ErrorBody (str ''Conflicting filters'')) 422"
  shows "fst (catch_all st out) \<noteq> json (ErrorBody (str ''Conflicting filters'')) 422"
  using assms by (cases out) (auto simp: catch_all_def json_def)

lemma fetch_A_cases:
  assumes "Q (post_strings_A P req st)"
    and "Q (natural_language_route applyFilters_A P req st)"
    and "\<And>seg. Q (get_string (computeHash P) P seg st)"
    and "\<And>seg. Q (delete_string (computeHash P) P seg st)"
    and "Q (list_strings_A req st)"
    and "Q (Inr (TextResponse 200, st))"
  shows "\<exists>out. fetch_A P req st = catch_all st out \<and> Q out"
  unfolding fetch_A_def Let_def
  by (intro exI conjI, rule refl) (simp add: assms)

lemma fetch_B_cases:
  assumes "Q (post_strings_B P req st)"
    and "Q (natural_language_route (applyFilters_B P) P req st)"
    and "\<And>seg. Q (get_string (computeSHA256 P) P seg st)"
    and "\<And>seg. Q (delete_string (computeSHA256 P) P seg st)"
    and "Q (list_strings_B P req st)"
    and "Q (Inr (TextResponse 200, st))"
  shows "\<exists>out. fetch_B P req st = catch_all st out \<and> Q out"
  unfolding fetch_B_def Let_def
  by (intro exI conjI, rule refl) (simp add: assms)

lemma fetch_A_not_422:
  "fst (fetch_A P req st) \<noteq> json (ErrorBody (str ''Conflicting filters'')) 422"
proof -
  let ?Q = "\<lambda>out. \<forall>resp st'. out = Inr (resp, st') \<longrightarrow>
                   resp \<noteq> json (ErrorBody (str ''Conflicting filters'')) 422"
  have "\<exists>out. fetch_A P req st = catch_all st out \<and> ?Q out"
    by (rule fetch_A_cases)
       (auto simp: json_def
         dest: post_A_not_422 nl_route_not_422 get_string_not_422 delete_string_not_422
           list_A_not_422)
  then show ?thesis
    using catch_all_not_422 by metis
qed

lemma fetch_B_not_422:
  "fst (fetch_B P req st) \<noteq> json (ErrorBody (str ''Conflicting filters'')) 422"
proof -
  let ?Q = "\<lambda>out. \<forall>resp st'. out = Inr (resp, st') \<longrightarrow>
                   resp \<noteq> json (ErrorBody (str ''Conflicting filters'')) 422"
  have "\<exists>out. fetch_B P req st = catch_all st out \<and> ?Q out"
    by (rule fetch_B_cases)
       (auto simp: json_def
         dest: post_B_not_422 nl_route_not_422 get_string_not_422 delete_string_not_422
           list_B_not_422)
  then show ?thesis
    using catch_all_not_422 by metis
qed

text \<open>
  C10. Whatever the query, a successful interpretation has no \<open>max_length\<close> key, so the
  conflicting-filters condition is false of it; and no request, in either variant of the
  handler, is answered with the 422 \<open>Conflicting filters\<close> response.
\<close>

theorem interpret_never_sets_max_length:
  "(\<forall>out. parseNaturalLanguageQuery P q = Some out \<longrightarrow>
          bag_get out (str ''max_length'') = None \<and> \<not> conflicting out)
   \<and> fst (fetch_A P req st) \<noteq> json (ErrorBody (str ''Conflicting filters'')) 422
   \<and> fst (fetch_B P req st) \<noteq> json (ErrorBody (str ''Conflicting filters'')) 422"
  by (simp add: parse_no_max_length parse_not_conflicting fetch_A_not_422 fetch_B_not_422)

theorem interpret_never_sets_max_length_witness:
  "parseNaturalLanguageQuery ascii_host (str ''strings longer than 10 characters'')
     = Some [(str ''min_length'', JNum (Num 11))]
   \<and> bag_get [(str ''min_length'', JNum (Num 11))] (str ''max_length'') = None
   \<and> \<not> conflicting [(str ''min_length'', JNum (Num 11))]"
proof -
  have p: "parseNaturalLanguageQuery ascii_host (str ''strings longer than 10 characters'')
           = Some [(str ''min_length'', JNum (Num 11))]"
    by code_simp
  from interpret_never_sets_max_length
         [of ascii_host "str ''strings longer than 10 characters''"] p
  show ?thesis by blast
qed

lemma parse_depends_on_lower:
  "toLowerCase P q = toLowerCase P' q \<Longrightarrow>
   parseNaturalLanguageQuery P q = parseNaturalLanguageQuery P' q"
  by (simp add: parseNaturalLanguageQuery_def)

lemma parse_ascii:
  "host_ok P \<Longrightarrow> list_all isAscii q \<Longrightarrow>
   parseNaturalLanguageQuery P q = parseNaturalLanguageQuery ascii_host q"
  by (rule parse_depends_on_lower) (simp add: host_ok_def ascii_host_def)

lemma computed_entries_empty:
  "computed_entries l = [] \<longleftrightarrow>
     \<not> has_phrase l (str ''single word'') \<and> \<not> has_phrase l (str ''one word'')
     \<and> \<not> has_phrase l (str ''1 word'')
     \<and> \<not> str_includes l (str ''palindromic'') \<and> \<not> str_includes l (str ''palindrome'')
     \<and> \<not> str_includes l (str ''palindromes'')
     \<and> longer_than l = None \<and> the_letter l = None \<and> containing l = None"
  by (auto simp: computed_entries_def word_count_rule_def palindrome_rule_def
      min_length_computed_def contains_rule_def split: option.splits if_splits)

lemma min_length_computed_small:
  assumes "small_number l"
  shows "min_length_computed l = min_length_rule l"
proof (cases "longer_than l")
  case None
  then show ?thesis by (simp add: min_length_computed_def min_length_rule_def)
next
  case (Some ds)
  then have "all_digits ds" by (rule longer_than_all_digits)
  then have "0 \<le> digits_value ds" by (rule digits_value_nonneg)
  with assms Some show ?thesis
    by (simp add: min_length_computed_def min_length_rule_def small_number_def js_add_small)
qed

lemma parse_by_amended_rules:
  assumes "small_number (trim (toLowerCase P q))"
  shows "parseNaturalLanguageQuery P q =
     (let out = interpret_rules (trim (toLowerCase P q)) in if out = [] then None else Some out)"
  using min_length_computed_small [OF assms]
  by (simp add: parse_by_rules computed_entries_def interpret_rules_def)

lemma filter_other_keys:
  "fst ` set xs \<subseteq> {k} \<Longrightarrow> k \<noteq> m \<Longrightarrow> filter (\<lambda>e. fst e \<noteq> m) xs = xs"
  "fst ` set xs \<subseteq> {m} \<Longrightarrow> filter (\<lambda>e. fst e \<noteq> m) xs = []"
  by (induction xs) auto

lemma parsed_entries:
  "(case parseNaturalLanguageQuery P q of None \<Rightarrow> [] | Some out \<Rightarrow> out)
   = computed_entries (trim (toLowerCase P q))"
  by (simp add: parse_by_rules Let_def)

lemma other_rules_unaffected:
  "filter (\<lambda>e. fst e \<noteq> str ''min_length'')
     (case parseNaturalLanguageQuery P q of None \<Rightarrow> [] | Some out \<Rightarrow> out)
   = word_count_rule (trim (toLowerCase P q)) @ palindrome_rule (trim (toLowerCase P q))
     @ contains_rule (trim (toLowerCase P q))"
  using keys_distinct
  by (simp add: parsed_entries computed_entries_def
      filter_other_keys(1) [OF keys_word_count_rule] filter_other_keys(1) [OF keys_palindrome_rule]
      filter_other_keys(1) [OF keys_contains_rule] filter_other_keys(2) [OF keys_min_length_computed])

lemma min_length_present:
  "(\<exists>v. map_of (case parseNaturalLanguageQuery P q of None \<Rightarrow> [] | Some out \<Rightarrow> out)
          (str ''min_length'') = Some v)
   \<longleftrightarrow> longer_than (trim (toLowerCase P q)) \<noteq> None"
  using keys_distinct
  by (auto simp: parsed_entries computed_entries_def word_count_rule_def palindrome_rule_def
      min_length_computed_def contains_rule_def split: option.splits if_splits)

lemma ex_queries_ascii:
  "list_all isAscii (str ''all single word palindromic strings'')"
  "list_all isAscii (str ''strings longer than 10 characters'')"
  "list_all isAscii (str ''strings containing the letter z'')"
  "list_all isAscii (str ''the quick brown fox'')"
  by code_simp+

lemma ex_parse_single_word:
  "parseNaturalLanguageQuery ascii_host (str ''all single word palindromic strings'')
   = Some [(str ''word_count'', JNum (Num 1)), (str ''is_palindrome'', JBool True)]"
  by code_simp

lemma ex_parse_longer:
  "parseNaturalLanguageQuery ascii_host (str ''strings longer than 10 characters'')
   = Some [(str ''min_length'', JNum (Num 11))]"
  by code_simp

lemma ex_parse_letter:
  "parseNaturalLanguageQuery ascii_host (str ''strings containing the letter z'')
   = Some [(str ''contains_character'', JStr (str ''z''))]"
  by code_simp

lemma ex_parse_fox:
  "parseNaturalLanguageQuery ascii_host (str ''the quick brown fox'') = None"
  by code_simp

text \<open>
  C3, as stated, fails in three ways. With \<open>N = 9007199254740992\<close> the rules as stated
  give \<open>min_length = N + 1\<close> and the parser gives \<open>N\<close>. For \<open>strings longer than 5
  character\<close> and for \<open>strings that contain the letter x\<close> no rule as stated fires, and
  the parser sets \<open>min_length = 6\<close> and \<open>contains_character = x\<close>.
\<close>

theorem interpret_differs_from_stated_rules:
  "stated_rules (trim (toLowerCase ascii_host
       (str ''strings longer than 9007199254740992 characters'')))
     = [(str ''min_length'', JNum (Num 9007199254740993))]
   \<and> parseNaturalLanguageQuery ascii_host
         (str ''strings longer than 9007199254740992 characters'')
       = Some [(str ''min_length'', JNum (Num 9007199254740992))]
   \<and> stated_rules (trim (toLowerCase ascii_host (str ''strings longer than 5 character''))) = []
   \<and> parseNaturalLanguageQuery ascii_host (str ''strings longer than 5 character'')
       = Some [(str ''min_length'', JNum (Num 6))]
   \<and> stated_rules (trim (toLowerCase ascii_host (str ''strings that contain the letter x'')))
       = []
   \<and> parseNaturalLanguageQuery ascii_host (str ''strings that contain the letter x'')
       = Some [(str ''contains_character'', JStr (str ''x''))]"
  by code_simp

text \<open>
  C3, as amended. The interpreter works on the trimmed, lower-cased query. Its entries
  other than \<open>min_length\<close> are those of the rules, in order, each rule giving at most one:
  \<open>word_count = 1\<close> for the phrase \<open>single word\<close>, \<open>one word\<close> or \<open>1 word\<close>;
  \<open>is_palindrome = true\<close> for \<open>palindromic\<close>, \<open>palindrome\<close> or \<open>palindromes\<close>;
  \<open>contains_character\<close> for the letter after \<open>contain the letter\<close>,
  \<open>contains the letter\<close> or \<open>containing the letter\<close>, or else after \<open>containing\<close> or
  \<open>containing the\<close>. It has a \<open>min_length\<close> entry exactly when the query has
  \<open>longer than N character\<close>, with or without a final \<open>s\<close>; and when \<open>N + 1\<close> is at
  most \<open>2^53\<close> that entry is \<open>N + 1\<close>, so that the result is the entries of the four
  rules. The three example queries of the specification give the results it states.
\<close>

theorem interpret_applies_rules:
  "(small_number (trim (toLowerCase P q)) \<longrightarrow>
      parseNaturalLanguageQuery P q =
        (let out = interpret_rules (trim (toLowerCase P q))
         in if out = [] then None else Some out))
   \<and> filter (\<lambda>e. fst e \<noteq> str ''min_length'')
        (case parseNaturalLanguageQuery P q of None \<Rightarrow> [] | Some out \<Rightarrow> out)
      = word_count_rule (trim (toLowerCase P q)) @ palindrome_rule (trim (toLowerCase P q))
        @ contains_rule (trim (toLowerCase P q))
   \<and> ((\<exists>v. map_of (case parseNaturalLanguageQuery P q of None \<Rightarrow> [] | Some out \<Rightarrow> out)
              (str ''min_length'') = Some v)
        \<longleftrightarrow> longer_than (trim (toLowerCase P q)) \<noteq> None)
   \<and> (host_ok P \<longrightarrow>
        parseNaturalLanguageQuery P (str ''all single word palindromic strings'')
          = Some [(str ''word_count'', JNum (Num 1)), (str ''is_palindrome'', JBool True)]
        \<and> parseNaturalLanguageQuery P (str ''strings longer than 10 characters'')
          = Some [(str ''min_length'', JNum (Num 11))]
        \<and> parseNaturalLanguageQuery P (str ''strings containing the letter z'')
          = Some [(str ''contains_character'', JStr (str ''z''))])"
proof -
  have a: "small_number (trim (toLowerCase P q)) \<longrightarrow>
      parseNaturalLanguageQuery P q =
        (let out = interpret_rules (trim (toLowerCase P q))
         in if out = [] then None else Some out)"
    using parse_by_amended_rules [of P q] by blast
  have d: "host_ok P \<longrightarrow>
        parseNaturalLanguageQuery P (str ''all single word palindromic strings'')
          = Some [(str ''word_count'', JNum (Num 1)), (str ''is_palindrome'', JBool True)]
        \<and> parseNaturalLanguageQuery P (str ''strings longer than 10 characters'')
          = Some [(str ''min_length'', JNum (Num 11))]
        \<and> parseNaturalLanguageQuery P (str ''strings containing the letter z'')
          = Some [(str ''contains_character'', JStr (str ''z''))]"
    using parse_ascii [OF _ ex_queries_ascii(1), of P] parse_ascii [OF _ ex_queries_ascii(2), of P]
      parse_ascii [OF _ ex_queries_ascii(3), of P]
      ex_parse_single_word ex_parse_longer ex_parse_letter
    by simp
  from a other_rules_unaffected [of P q] min_length_present [of P q] d show ?thesis
    by (intro conjI)
qed

theorem interpret_applies_rules_witness:
  "host_ok ascii_host
   \<and> longer_than (str ''show strings longer than 41 characters'') = Some (str ''41'')
   \<and> small_number (str ''show strings longer than 41 characters'')
   \<and> interpret_rules (str ''show strings longer than 41 characters'')
       = [(str ''min_length'', JNum (Num 42))]
   \<and> parseNaturalLanguageQuery ascii_host (str ''  Show strings LONGER than 41 characters '')
       = Some [(str ''min_length'', JNum (Num 42))]"
proof -
  have l: "trim (toLowerCase ascii_host (str ''  Show strings LONGER than 41 characters ''))
           = str ''show strings longer than 41 characters''"
    by code_simp
  have lt: "longer_than (str ''show strings longer than 41 characters'') = Some (str ''41'')"
    by code_simp
  have sm: "small_number (str ''show strings longer than 41 characters'')"
    by code_simp
  have r: "interpret_rules (str ''show strings longer than 41 characters'')
           = [(str ''min_length'', JNum (Num 42))]"
    by code_simp
  from interpret_applies_rules
         [of ascii_host "str ''  Show strings LONGER than 41 characters ''"]
  have "small_number (str ''show strings longer than 41 characters'') \<longrightarrow>
      parseNaturalLanguageQuery ascii_host (str ''  Show strings LONGER than 41 characters '')
        = (let out = interpret_rules (str ''show strings longer than 41 characters'')
           in if out = [] then None else Some out)"
    unfolding l by blast
  with sm r lt show ?thesis
    by (simp add: host_ok_ascii_host)
qed

lemma nl_route_parse_failure:
  assumes "map_of (searchParams req) (str ''query'') = Some q" and "q \<noteq> []"
    and "parseNaturalLanguageQuery P q = None"
  shows "natural_language_route ap P req st
         = Inr (json (ErrorBody (str ''Unable to parse natural language query'')) 400, st)"
  using assms by (simp add: natural_language_route_def get_or_def)

lemma method_neq: "str ''GET'' \<noteq> str ''POST''" "str ''DELETE'' \<noteq> str ''POST''"
  "str ''DELETE'' \<noteq> str ''GET''"
  by (simp_all add: str_def)

lemma nl_segments:
  "filter (\<lambda>p. p \<noteq> []) (split (str ''/strings/filter-by-natural-language'') 0x2F)
   = [str ''strings'', str ''filter-by-natural-language'']"
  by code_simp

lemma fetch_A_nl_route:
  assumes "req_method req = str ''GET''"
    and "strip_trailing_slashes (pathname req) = str ''/strings/filter-by-natural-language''"
  shows "fetch_A P req st = catch_all st (natural_language_route applyFilters_A P req st)"
  using assms by (simp add: fetch_A_def startsWith_def method_neq)

lemma fetch_B_nl_route:
  assumes "req_method req = str ''GET''"
    and "strip_trailing_slashes (pathname req) = str ''/strings/filter-by-natural-language''"
  shows "fetch_B P req st = catch_all st (natural_language_route (applyFilters_B P) P req st)"
  using assms by (simp add: fetch_B_def nl_segments method_neq)

lemma parse_failure_not_conflict:
  "json (ErrorBody (str ''Unable to parse natural language query'')) 400
   \<noteq> json (ErrorBody (str ''Conflicting filters'')) 422"
  by (simp add: json_def)

text \<open>
  C4, as stated, fails: for \<open>words longer than 3 character\<close> and for
  \<open>find strings that contain the letter q\<close> none of the rules as stated fires, and the
  parser does not return \<open>null\<close>.
\<close>

theorem interpret_not_null_without_stated_rule:
  "stated_rules (trim (toLowerCase ascii_host (str ''words longer than 3 character''))) = []
   \<and> parseNaturalLanguageQuery ascii_host (str ''words longer than 3 character'') \<noteq> None
   \<and> stated_rules (trim (toLowerCase ascii_host (str ''find strings that contain the letter q'')))
       = []
   \<and> parseNaturalLanguageQuery ascii_host (str ''find strings that contain the letter q'')
       \<noteq> None"
  by code_simp

text \<open>
  C4, as amended. The interpreter returns \<open>null\<close> exactly when none of the rules as
  amended fires: no phrase \<open>single word\<close>, \<open>one word\<close> or \<open>1 word\<close>, no \<open>palindromic\<close>,
  \<open>palindrome\<close> or \<open>palindromes\<close>, no \<open>longer than N character\<close> (with or without a
  final \<open>s\<close>), no letter after \<open>contain the letter\<close>, \<open>contains the letter\<close> or
  \<open>containing the letter\<close>, and none after \<open>containing\<close> or \<open>containing the\<close>.
  \<open>the quick brown fox\<close> is such a query; and a GET of the natural-language route whose
  query is not empty and is not interpreted is answered, in both variants, with the 400
  response \<open>Unable to parse natural language query\<close> and an unchanged store: an error, not
  a list, and not the 422 response of conflicting filters.
\<close>

theorem interpret_null_is_parse_failure:
  "(parseNaturalLanguageQuery P q = None \<longleftrightarrow>
      \<not> has_phrase (trim (toLowerCase P q)) (str ''single word'')
      \<and> \<not> has_phrase (trim (toLowerCase P q)) (str ''one word'')
      \<and> \<not> has_phrase (trim (toLowerCase P q)) (str ''1 word'')
      \<and> \<not> str_includes (trim (toLowerCase P q)) (str ''palindromic'')
      \<and> \<not> str_includes (trim (toLowerCase P q)) (str ''palindrome'')
      \<and> \<not> str_includes (trim (toLowerCase P q)) (str ''palindromes'')
      \<and> longer_than (trim (toLowerCase P q)) = None
      \<and> the_letter (trim (toLowerCase P q)) = None
      \<and> containing (trim (toLowerCase P q)) = None)
   \<and> (host_ok P \<longrightarrow> parseNaturalLanguageQuery P (str ''the quick brown fox'') = None)
   \<and> (req_method req = str ''GET''
        \<and> strip_trailing_slashes (pathname req) = str ''/strings/filter-by-natural-language''
        \<and> map_of (searchParams req) (str ''query'') = Some q \<and> q \<noteq> []
        \<and> parseNaturalLanguageQuery P q = None \<longrightarrow>
        fetch_A P req st
          = (json (ErrorBody (str ''Unable to parse natural language query'')) 400, st)
        \<and> fetch_B P req st
          = (json (ErrorBody (str ''Unable to parse natural language query'')) 400, st))
   \<and> json (ErrorBody (str ''Unable to parse natural language query'')) 400
       \<noteq> json (ErrorBody (str ''Conflicting filters'')) 422"
proof -
  have a: "parseNaturalLanguageQuery P q = None
           \<longleftrightarrow> computed_entries (trim (toLowerCase P q)) = []"
    by (simp add: parse_by_rules Let_def)
  have b: "host_ok P \<longrightarrow> parseNaturalLanguageQuery P (str ''the quick brown fox'') = None"
    using parse_ascii [OF _ ex_queries_ascii(4), of P] ex_parse_fox by simp
  have c: "req_method req = str ''GET''
        \<and> strip_trailing_slashes (pathname req) = str ''/strings/filter-by-natural-language''
        \<and> map_of (searchParams req) (str ''query'') = Some q \<and> q \<noteq> []
        \<and> parseNaturalLanguageQuery P q = None \<longrightarrow>
        fetch_A P req st
          = (json (ErrorBody (str ''Unable to parse natural language query'')) 400, st)
        \<and> fetch_B P req st
          = (json (ErrorBody (str ''Unable to parse natural language query'')) 400, st)"
    by (simp add: fetch_A_nl_route fetch_B_nl_route nl_route_parse_failure catch_all_def)
  from a have a': "parseNaturalLanguageQuery P q = None \<longleftrightarrow>
      \<not> has_phrase (trim (toLowerCase P q)) (str ''single word'')
      \<and> \<not> has_phrase (trim (toLowerCase P q)) (str ''one word'')
      \<and> \<not> has_phrase (trim (toLowerCase P q)) (str ''1 word'')
      \<and> \<not> str_includes (trim (toLowerCase P q)) (str ''palindromic'')
      \<and> \<not> str_includes (trim (toLowerCase P q)) (str ''palindrome'')
      \<and> \<not> str_includes (trim (toLowerCase P q)) (str ''palindromes'')
      \<and> longer_than (trim (toLowerCase P q)) = None
      \<and> the_letter (trim (toLowerCase P q)) = None
      \<and> containing (trim (toLowerCase P q)) = None"
    by (simp only: computed_entries_empty)
  from a' b c parse_failure_not_conflict show ?thesis
    by (intro conjI)
qed

theorem interpret_null_is_parse_failure_witness:
  "host_ok ascii_host
   \<and> parseNaturalLanguageQuery ascii_host (str ''the quick brown fox'') = None
   \<and> fetch_B ascii_host
        (get_request (str ''/strings/filter-by-natural-language/'')
           [(str ''query'', str ''the quick brown fox'')]) apple_store
      = (json (ErrorBody (str ''Unable to parse natural language query'')) 400, apple_store)"
proof -
  let ?req = "get_request (str ''/strings/filter-by-natural-language/'')
                [(str ''query'', str ''the quick brown fox'')]"
  have h: "host_ok ascii_host" by (rule host_ok_ascii_host)
  have m: "req_method ?req = str ''GET''"
    by (simp add: get_request_def)
  have p: "strip_trailing_slashes (pathname ?req) = str ''/strings/filter-by-natural-language''"
    by code_simp
  have q: "map_of (searchParams ?req) (str ''query'') = Some (str ''the quick brown fox'')"
    "str ''the quick brown fox'' \<noteq> []"
    by (simp_all add: get_request_def str_def)
  from interpret_null_is_parse_failure
         [of ascii_host "str ''the quick brown fox''" ?req apple_store] h m p q
  show ?thesis by blast
qed

section \<open>applyFilters: proofs\<close>

lemma uint_digit: "0 \<le> d \<Longrightarrow> d < 10 \<Longrightarrow> uint (of_int (0x30 + d) :: code_unit) = 0x30 + d"
proof -
  assume d: "0 \<le> d" "d < 10"
  have "uint (word_of_int (0x30 + d) :: code_unit) = take_bit 16 (0x30 + d)"
    by (simp only: uint_word_of_int_eq) simp
  also from d have "\<dots> = 0x30 + d"
    by (simp add: take_bit_int_eq_self)
  finally show ?thesis .
qed

lemma isDigit_digit: "0 \<le> d \<Longrightarrow> d < 10 \<Longrightarrow> isDigit (of_int (0x30 + d))"
  using uint_digit [of d] by (simp add: isDigit_def word_le_def)

lemma digits_value_snoc:
  "digits_value (ds @ [d]) = 10 * digits_value ds + (uint d - 0x30)"
  by (simp add: digits_value_def)

lemma decimal_digits: "0 \<le> n \<Longrightarrow> all_digits (decimal n) \<and> digits_value (decimal n) = n"
proof (induction n rule: decimal.induct)
  case (1 n)
  show ?case
  proof (cases "n < 10")
    case True
    with 1(2) show ?thesis
      using uint_digit [of n] isDigit_digit [of n]
      by (subst (1 2) decimal.simps) (simp add: all_digits_def digits_value_def)
  next
    case False
    with 1 have ih: "all_digits (decimal (n div 10))" "digits_value (decimal (n div 10)) = n div 10"
      by simp_all
    have d: "0 \<le> n mod 10" "n mod 10 < 10" by simp_all
    from False ih d show ?thesis
      using uint_digit [OF d] isDigit_digit [OF d]
      by (subst (1 2) decimal.simps) (simp add: all_digits_def digits_value_snoc)
  qed
qed

lemma parseInt_decimal: "int n \<le> 2 ^ 53 \<Longrightarrow> parseInt (decimal (int n)) = Num (int n)"
  using decimal_digits [of "int n"] by (simp add: parseInt_digits to_double_small)

lemma decimal_nonempty: "decimal (int n) \<noteq> []"
  using decimal_digits [of "int n"] by (simp add: all_digits_def)

lemma filter_keys_distinct:
  "str ''is_palindrome'' \<noteq> str ''min_length''" "str ''is_palindrome'' \<noteq> str ''max_length''"
  "str ''is_palindrome'' \<noteq> str ''word_count''"
  "str ''is_palindrome'' \<noteq> str ''contains_character''"
  "str ''min_length'' \<noteq> str ''max_length''" "str ''min_length'' \<noteq> str ''word_count''"
  "str ''min_length'' \<noteq> str ''contains_character''"
  "str ''max_length'' \<noteq> str ''word_count''" "str ''max_length'' \<noteq> str ''contains_character''"
  "str ''word_count'' \<noteq> str ''contains_character''"
  by (simp_all add: str_def)

lemma map_of_param_entry:
  "map_of (param_entry k v @ rest) k' = (if k' = k \<and> v \<noteq> None then v else map_of rest k')"
  by (cases v) (simp_all add: param_entry_def)

lemma map_of_param_entry_last:
  "map_of (param_entry k v) k' = (if k' = k then v else None)"
  by (cases v) (simp_all add: param_entry_def)

lemma params_of_lookup:
  "map_of (params_of ps) (str ''is_palindrome'')
     = map_option (\<lambda>v. if v then str ''true'' else str ''false'') (p_is_palindrome ps)"
  "map_of (params_of ps) (str ''min_length'') = map_option (\<lambda>n. decimal (int n)) (p_min_length ps)"
  "map_of (params_of ps) (str ''max_length'') = map_option (\<lambda>n. decimal (int n)) (p_max_length ps)"
  "map_of (params_of ps) (str ''word_count'') = map_option (\<lambda>n. decimal (int n)) (p_word_count ps)"
  "map_of (params_of ps) (str ''contains_character'') = p_contains_character ps"
  using filter_keys_distinct filter_keys_distinct [symmetric]
  by (simp_all add: params_of_def map_of_param_entry map_of_param_entry_last
      del: map_of_append)

lemma true_neq_false: "str ''false'' \<noteq> str ''true''"
  by (simp add: str_def)

lemma data_filter_is_palindrome:
  "data (filter_is_palindrome (params_of ps) fr)
   = filter (\<lambda>r. case p_is_palindrome ps of None \<Rightarrow> True
                  | Some v \<Rightarrow> is_palindrome (properties r) = v) (data fr)"
  using true_neq_false
  by (cases "p_is_palindrome ps")
     (auto simp: filter_is_palindrome_def has_def params_of_lookup Let_def intro: filter_cong)

lemma data_filter_min_length:
  assumes "representable ps"
  shows "data (filter_min_length (params_of ps) fr)
         = filter (\<lambda>r. case p_min_length ps of None \<Rightarrow> True
                        | Some n \<Rightarrow> n \<le> str_length (properties r)) (data fr)"
  using assms
  by (cases "p_min_length ps")
     (simp_all add: filter_min_length_def has_def params_of_lookup get_or_def decimal_nonempty
       parseInt_decimal representable_def js_ge_def)

lemma data_filter_max_length:
  assumes "representable ps"
  shows "data (filter_max_length (params_of ps) fr)
         = filter (\<lambda>r. case p_max_length ps of None \<Rightarrow> True
                        | Some n \<Rightarrow> str_length (properties r) \<le> n) (data fr)"
  using assms
  by (cases "p_max_length ps")
     (simp_all add: filter_max_length_def has_def params_of_lookup get_or_def decimal_nonempty
       parseInt_decimal representable_def js_le_def)

lemma data_filter_word_count:
  assumes "representable ps"
  shows "data (filter_word_count (params_of ps) fr)
         = filter (\<lambda>r. case p_word_count ps of None \<Rightarrow> True
                        | Some n \<Rightarrow> word_count (properties r) = n) (data fr)"
  using assms
  by (cases "p_word_count ps")
     (simp_all add: filter_word_count_def has_def params_of_lookup get_or_def decimal_nonempty
       parseInt_decimal representable_def js_eq_def)

lemma data_filter_contains_A:
  "data (filter_contains_A (params_of ps) fr)
   = filter (\<lambda>r. case p_contains_character ps of None \<Rightarrow> True
                  | Some c \<Rightarrow> str_includes (rec_value r) c) (data fr)"
  by (cases "p_contains_character ps")
     (simp_all add: filter_contains_A_def has_def params_of_lookup get_or_def)

lemma data_filter_contains_B:
  "data (filter_contains_B P (params_of ps) fr)
   = filter (\<lambda>r. case p_contains_character ps of None \<Rightarrow> True
                  | Some c \<Rightarrow> str_includes (toLowerCase P (rec_value r)) (toLowerCase P c))
       (data fr)"
  by (cases "p_contains_character ps")
     (simp_all add: filter_contains_B_def has_def params_of_lookup get_or_def Let_def)

lemma applyFilters_A_satisfies:
  "representable ps \<Longrightarrow> p_contains_character ps = None \<Longrightarrow>
   data (applyFilters_A records (params_of ps)) = filter (satisfies P ps) records"
  by (simp add: applyFilters_A_def data_filter_is_palindrome data_filter_min_length
      data_filter_max_length data_filter_word_count data_filter_contains_A)
     (rule filter_cong, auto simp: satisfies_def)

lemma applyFilters_B_satisfies:
  "representable ps \<Longrightarrow>
   data (applyFilters_B P records (params_of ps)) = filter (satisfies P ps) records"
  by (simp add: applyFilters_B_def data_filter_is_palindrome data_filter_min_length
      data_filter_max_length data_filter_word_count data_filter_contains_B)
     (rule filter_cong, auto simp: satisfies_def)

lemma applyFilters_no_predicates:
  "data (applyFilters_A records []) = records" "applied (applyFilters_A records []) = []"
  "data (applyFilters_B P records []) = records" "applied (applyFilters_B P records []) = []"
  by (simp_all add: applyFilters_A_def applyFilters_B_def filter_is_palindrome_def
      filter_min_length_def filter_max_length_def filter_word_count_def filter_contains_A_def
      filter_contains_B_def has_def)

lemma five_params: "parseInt (str ''5'') = Num 5" "str ''5'' \<noteq> []"
proof -
  have "decimal 5 = str ''5''"
    by (subst decimal.simps) (simp add: str_def)
  with parseInt_decimal [of 5] decimal_nonempty [of 5]
  show "parseInt (str ''5'') = Num 5" "str ''5'' \<noteq> []"
    by simp_all
qed

lemma applyFilters_length_five:
  "data (applyFilters_A records [(str ''min_length'', str ''5''), (str ''max_length'', str ''5'')])
     = filter (\<lambda>r. str_length (properties r) = 5) records"
  "data (applyFilters_B P records [(str ''min_length'', str ''5''), (str ''max_length'', str ''5'')])
     = filter (\<lambda>r. str_length (properties r) = 5) records"
  using filter_keys_distinct filter_keys_distinct [symmetric]
  by (auto simp: applyFilters_A_def applyFilters_B_def filter_is_palindrome_def
      filter_min_length_def filter_max_length_def filter_word_count_def filter_contains_A_def
      filter_contains_B_def has_def get_or_def five_params js_ge_def js_le_def Let_def
      intro!: filter_cong)

lemma subseq_steps:
  "subseq (data (filter_is_palindrome qs fr)) (data fr)"
  "subseq (data (filter_min_length qs fr)) (data fr)"
  "subseq (data (filter_max_length qs fr)) (data fr)"
  "subseq (data (filter_word_count qs fr)) (data fr)"
  "subseq (data (filter_contains_A qs fr)) (data fr)"
  "subseq (data (filter_contains_B P qs fr)) (data fr)"
  by (simp_all add: filter_is_palindrome_def filter_min_length_def filter_max_length_def
      filter_word_count_def filter_contains_A_def filter_contains_B_def Let_def)

lemma subseq_applyFilters_A: "subseq (data (applyFilters_A records qs)) records"
proof -
  let ?f0 = "\<lparr> data = records, applied = [] \<rparr>"
  let ?f1 = "filter_is_palindrome qs ?f0"
  let ?f2 = "filter_min_length qs ?f1"
  let ?f3 = "filter_max_length qs ?f2"
  let ?f4 = "filter_word_count qs ?f3"
  have "subseq (data (filter_contains_A qs ?f4)) (data ?f4)" by (rule subseq_steps)
  also have "subseq (data ?f4) (data ?f3)" by (rule subseq_steps)
  also have "subseq (data ?f3) (data ?f2)" by (rule subseq_steps)
  also have "subseq (data ?f2) (data ?f1)" by (rule subseq_steps)
  also have "subseq (data ?f1) (data ?f0)" by (rule subseq_steps)
  finally show ?thesis by (simp add: applyFilters_A_def)
qed

lemma subseq_applyFilters_B: "subseq (data (applyFilters_B P records qs)) records"
proof -
  let ?f0 = "\<lparr> data = records, applied = [] \<rparr>"
  let ?f1 = "filter_is_palindrome qs ?f0"
  let ?f2 = "filter_min_length qs ?f1"
  let ?f3 = "filter_max_length qs ?f2"
  let ?f4 = "filter_word_count qs ?f3"
  have "subseq (data (filter_contains_B P qs ?f4)) (data ?f4)" by (rule subseq_steps)
  also have "subseq (data ?f4) (data ?f3)" by (rule subseq_steps)
  also have "subseq (data ?f3) (data ?f2)" by (rule subseq_steps)
  also have "subseq (data ?f2) (data ?f1)" by (rule subseq_steps)
  also have "subseq (data ?f1) (data ?f0)" by (rule subseq_steps)
  finally show ?thesis by (simp add: applyFilters_B_def)
qed

text \<open>
  C2 fails in \<open>src/unnamed/part_000\<close>. The store holds \<open>Apple\<close>, \<open>racecar\<close> and
  \<open>Level up\<close>, in this order, and the predicate set is \<open>is_palindrome = true\<close>,
  \<open>min_length = 5\<close>, \<open>max_length = 7\<close>, \<open>contains_character = R\<close>. The records that
  satisfy every predicate present are the one of \<open>racecar\<close>; \<open>applyFilters\<close> of
  \<open>src/unnamed/part_000\<close> returns no record, and \<open>applyFilters\<close> of \<open>src/README.md\<close>
  returns the record of \<open>racecar\<close>.
\<close>

theorem applyFilters_part_000_not_conjunctive:
  "map rec_value (load_all sample_store) = [str ''Apple'', str ''racecar'', str ''Level up'']
   \<and> map rec_value (filter (satisfies ascii_host sample_predicates) (load_all sample_store))
       = [str ''racecar'']
   \<and> data (applyFilters_A (load_all sample_store) (params_of sample_predicates)) = []
   \<and> map rec_value
         (data (applyFilters_B ascii_host (load_all sample_store) (params_of sample_predicates)))
       = [str ''racecar'']"
  by code_simp

section \<open>The frequency map: proofs\<close>

lemma bump_keys: "distinct (map fst freq) \<Longrightarrow> distinct (map fst (bump freq ch))"
  by (simp add: bump_def distinct_update)

lemma entry_le_sum: "(k, n) \<in> set al \<Longrightarrow> (n::nat) \<le> sum_list (map snd al)"
  by (induction al) auto

lemma lookup_le_sum:
  "(case map_of al k of None \<Rightarrow> 0 | Some n \<Rightarrow> n) \<le> (sum_list (map snd al) :: nat)"
  by (auto split: option.splits dest!: map_of_SomeD intro: entry_le_sum)

lemma sum_update:
  "distinct (map fst al) \<Longrightarrow>
   sum_list (map snd (AList.update k v al))
   = sum_list (map snd al) - (case map_of al k of None \<Rightarrow> 0 | Some n \<Rightarrow> n) + (v::nat)"
proof (induction al)
  case Nil
  show ?case by simp
next
  case (Cons p al)
  obtain k' n' where p: "p = (k', n')" by (cases p)
  show ?case
  proof (cases "k' = k")
    case True
    with Cons.prems p show ?thesis by simp
  next
    case False
    with Cons p lookup_le_sum [of al k] show ?thesis by simp
  qed
qed

lemma bump_sum:
  "distinct (map fst freq) \<Longrightarrow> sum_list (map snd (bump freq ch)) = sum_list (map snd freq) + 1"
  using lookup_le_sum [of freq ch] by (simp add: bump_def sum_update)

lemma foldl_bump_sum:
  "distinct (map fst freq) \<Longrightarrow>
   distinct (map fst (foldl bump freq xs))
   \<and> sum_list (map snd (foldl bump freq xs)) = sum_list (map snd freq) + length xs"
  by (induction xs arbitrary: freq) (simp_all add: bump_keys bump_sum)

lemma frequency_sum: "sum_list (map snd (getCharFrequency s)) = length (chars_of s)"
  using foldl_bump_sum [of "[]" "chars_of s"] by (simp add: getCharFrequency_def)

lemma bump_lookup:
  "map_of (bump freq ch) c
   = (if c = ch then Some ((case map_of freq ch of None \<Rightarrow> 0 | Some n \<Rightarrow> n) + 1)
      else map_of freq c)"
  by (simp add: bump_def update_conv')

lemma foldl_bump_lookup:
  "(case map_of (foldl bump freq xs) c of None \<Rightarrow> 0 | Some n \<Rightarrow> n)
   = (case map_of freq c of None \<Rightarrow> 0 | Some n \<Rightarrow> n) + count_list xs c"
  by (induction xs arbitrary: freq) (simp_all add: bump_lookup)

lemma foldl_bump_dom:
  "map_of (foldl bump freq xs) c = None \<longleftrightarrow> map_of freq c = None \<and> c \<notin> set xs"
  by (induction xs arbitrary: freq) (auto simp: bump_lookup)

lemma frequency_counts:
  "map_of (getCharFrequency s) c
   = (if c \<in> set (chars_of s) then Some (count_list (chars_of s) c) else None)"
  using foldl_bump_lookup [of "[]" "chars_of s" c] foldl_bump_dom [of "[]" "chars_of s" c]
  by (auto simp: getCharFrequency_def split: option.splits)

lemma chars_of_no_pairs:
  "list_all (\<lambda>c. \<not> isHighSurrogate c) s \<Longrightarrow> chars_of s = map (\<lambda>c. [c]) s"
  by (induction s rule: chars_of.induct) simp_all

lemma frequency_sum_bmp:
  "list_all (\<lambda>c. \<not> isHighSurrogate c) s \<Longrightarrow>
   sum_list (map snd (getCharFrequency s)) = length s"
  by (simp add: frequency_sum chars_of_no_pairs)

text \<open>
  C5, at a string outside the Basic Multilingual Plane. For U+1F600, the surrogate pair
  \<open>D83D DE00\<close>, \<open>length\<close> is 2 while the frequency map has the single entry of count 1 and
  \<open>unique_characters\<close> is 1: \<open>value.length\<close> counts code units, the iterator of the other
  two counts code points.
\<close>

theorem analyzeString_surrogate_pair:
  "(case analyzeString ascii_host [0xD83D, 0xDE00] of
      Inl e \<Rightarrow> False
    | Inr an \<Rightarrow>
        str_length an = 2
        \<and> character_frequency_map an = [([0xD83D, 0xDE00], 1)]
        \<and> sum_list (map snd (character_frequency_map an)) = 1
        \<and> unique_characters an = 1)"
  by code_simp

section \<open>GET /strings: proofs\<close>

lemma all_digits_nonempty: "all_digits [] = False"
  by (simp add: all_digits_def)

lemma digits_check: "has ps k \<and> \<not> test rx_digits (get_or ps k []) \<longleftrightarrow> not_integer ps k"
  by (auto simp: has_def get_or_def test_digits not_integer_def all_digits_nonempty
      split: option.splits)

lemma boolean_check:
  "has ps k \<and> map_of ps k \<noteq> Some (str ''true'') \<and> map_of ps k \<noteq> Some (str ''false'')
   \<longleftrightarrow> not_boolean ps k"
  by (auto simp: has_def not_boolean_def split: option.splits)

lemma empty_check: "has ps k \<and> length (get_or ps k []) = 0 \<longleftrightarrow> empty_value ps k"
  by (auto simp: has_def get_or_def empty_value_def split: option.splits)

lemma validate_query_unfold:
  "validate_query ps =
     (if not_boolean ps (str ''is_palindrome'') then Some (str ''is_palindrome'')
      else if not_integer ps (str ''min_length'') then Some (str ''min_length'')
      else if not_integer ps (str ''max_length'') then Some (str ''max_length'')
      else if not_integer ps (str ''word_count'') then Some (str ''word_count'')
      else if empty_value ps (str ''contains_character'') then Some (str ''contains_character'')
      else None)"
  unfolding validate_query_def digits_check boolean_check empty_check ..

lemma validate_query_malformed: "validate_query ps \<noteq> None \<longleftrightarrow> malformed ps"
  by (simp add: validate_query_unfold malformed_def)

lemma validate_query_names: "validate_query ps = Some name \<Longrightarrow> name \<in> set recognised"
  unfolding validate_query_unfold recognised_def
  by (auto split: if_splits)

lemma segments_strings:
  "filter (\<lambda>p. p \<noteq> []) (split (str ''/strings'') 0x2F) = [str ''strings'']"
  by code_simp

lemma strings_not_nl: "\<not> startsWith (str ''/strings'') (str ''/strings/filter-by-natural-language'')"
  "\<not> startsWith (str ''/strings'') (str ''/strings/'')"
  by code_simp+

lemma fetch_B_list_route:
  assumes "req_method req = str ''GET''"
    and "strip_trailing_slashes (pathname req) = str ''/strings''"
  shows "fetch_B P req st = catch_all st (list_strings_B P req st)"
  using assms by (simp add: fetch_B_def segments_strings method_neq)

lemma fetch_A_list_route:
  assumes "req_method req = str ''GET''"
    and "strip_trailing_slashes (pathname req) = str ''/strings''"
  shows "fetch_A P req st = catch_all st (list_strings_A req st)"
  using assms by (simp add: fetch_A_def strings_not_nl method_neq)

lemma list_strings_B_rejects:
  assumes "malformed (searchParams req)"
  shows "\<exists>name \<in> set recognised.
           list_strings_B P req st
           = Inr (json (ErrorBody (str ''Invalid query parameter '' @ [0x27] @ name @ [0x27]))
                    400, st)"
proof -
  from assms obtain name where v: "validate_query (searchParams req) = Some name"
    using validate_query_malformed [of "searchParams req"] by auto
  then have "name \<in> set recognised" by (rule validate_query_names)
  with v show ?thesis by (auto simp: list_strings_B_def)
qed

lemma list_strings_B_accepts:
  assumes "\<not> malformed (searchParams req)"
  shows "list_strings_B P req st
         = Inr (json (ListBody (data (applyFilters_B P (load_all st) (searchParams req)))
                        (length (data (applyFilters_B P (load_all st) (searchParams req))))
                        (FiltersApplied
                           (applied (applyFilters_B P (load_all st) (searchParams req)))))
                  200, st)"
proof -
  from assms have "validate_query (searchParams req) = None"
    using validate_query_malformed [of "searchParams req"] by auto
  then show ?thesis by (simp add: list_strings_B_def Let_def)
qed

lemma filter_steps_cong:
  "map_of ps (str ''is_palindrome'') = map_of ps' (str ''is_palindrome'') \<Longrightarrow>
   filter_is_palindrome ps = filter_is_palindrome ps'"
  "map_of ps (str ''min_length'') = map_of ps' (str ''min_length'') \<Longrightarrow>
   filter_min_length ps = filter_min_length ps'"
  "map_of ps (str ''max_length'') = map_of ps' (str ''max_length'') \<Longrightarrow>
   filter_max_length ps = filter_max_length ps'"
  "map_of ps (str ''word_count'') = map_of ps' (str ''word_count'') \<Longrightarrow>
   filter_word_count ps = filter_word_count ps'"
  "map_of ps (str ''contains_character'') = map_of ps' (str ''contains_character'') \<Longrightarrow>
   filter_contains_A ps = filter_contains_A ps'"
  "map_of ps (str ''contains_character'') = map_of ps' (str ''contains_character'') \<Longrightarrow>
   filter_contains_B P ps = filter_contains_B P ps'"
  by (simp_all add: fun_eq_iff filter_is_palindrome_def filter_min_length_def
      filter_max_length_def filter_word_count_def filter_contains_A_def filter_contains_B_def
      has_def get_or_def)

lemma applyFilters_B_cong:
  assumes "\<forall>k \<in> set recognised. map_of ps k = map_of ps' k"
  shows "applyFilters_B P rs ps = applyFilters_B P rs ps'"
proof -
  from assms have "filter_is_palindrome ps = filter_is_palindrome ps'"
    "filter_min_length ps = filter_min_length ps'"
    "filter_max_length ps = filter_max_length ps'"
    "filter_word_count ps = filter_word_count ps'"
    "filter_contains_B P ps = filter_contains_B P ps'"
    by (simp_all add: recognised_def) (rule filter_steps_cong, simp)+
  then show ?thesis by (simp add: applyFilters_B_def)
qed

lemma malformed_cong:
  assumes "\<forall>k \<in> set recognised. map_of ps k = map_of ps' k"
  shows "malformed ps = malformed ps'"
  using assms
  by (simp add: malformed_def not_boolean_def not_integer_def empty_value_def recognised_def)

lemma validate_query_cong:
  assumes "\<forall>k \<in> set recognised. map_of ps k = map_of ps' k"
  shows "validate_query ps = validate_query ps'"
  using assms
  by (simp add: validate_query_unfold not_boolean_def not_integer_def empty_value_def
      recognised_def)

lemma list_strings_B_ignores_unrecognised:
  assumes "k \<notin> set recognised"
  shows "list_strings_B P (req\<lparr>searchParams := (k, v) # searchParams req\<rparr>) st
         = list_strings_B P req st"
proof -
  from assms have same: "\<forall>n \<in> set recognised.
      map_of ((k, v) # searchParams req) n = map_of (searchParams req) n"
    by auto
  from same have "validate_query ((k, v) # searchParams req) = validate_query (searchParams req)"
    by (rule validate_query_cong)
  moreover from same have "\<And>rs. applyFilters_B P rs ((k, v) # searchParams req)
                          = applyFilters_B P rs (searchParams req)"
    by (rule applyFilters_B_cong)
  ultimately show ?thesis
    by (simp add: list_strings_B_def Let_def split: option.splits)
qed

text \<open>
  C1, at the failing input. The store holds \<open>Apple\<close>; \<open>GET /strings?contains_character=a\<close>
  is answered by the handler of \<open>src/unnamed/part_000\<close> with an empty list, although the
  lower-cased value contains the lower-cased character, and by the handler of
  \<open>src/README.md\<close> with the record.
\<close>

theorem contains_character_case_sensitive_in_part_000:
  "map rec_value (load_all apple_store) = [str ''Apple'']
   \<and> str_includes (ascii_lower (str ''Apple'')) (ascii_lower (str ''a''))
   \<and> fetch_A ascii_host
         (get_request (str ''/strings'') [(str ''contains_character'', str ''a'')]) apple_store
       = (json (ListBody [] 0 (FiltersApplied [(str ''contains_character'', JStr (str ''a''))]))
            200, apple_store)
   \<and> fetch_B ascii_host
         (get_request (str ''/strings'') [(str ''contains_character'', str ''a'')]) apple_store
       = (json (ListBody (load_all apple_store) 1
                  (FiltersApplied [(str ''contains_character'', JStr (str ''a''))]))
            200, apple_store)"
  by code_simp

text \<open>
  C7, as stated, fails: a parameter of an unrecognised name is not rejected (the handler of
  \<open>src/README.md\<close> answers 200), and the handler of \<open>src/unnamed/part_000\<close> checks nothing
  (\<open>is_palindrome=yes\<close> is answered 200, read as \<open>false\<close>).
\<close>

theorem unrecognised_name_not_rejected:
  "fetch_B ascii_host (get_request (str ''/strings'') [(str ''colour'', str ''red'')]) apple_store
     = (json (ListBody (load_all apple_store) 1 (FiltersApplied [])) 200, apple_store)
   \<and> fetch_A ascii_host (get_request (str ''/strings'') [(str ''is_palindrome'', str ''yes'')])
         apple_store
     = (json (ListBody (load_all apple_store) 1
                (FiltersApplied [(str ''is_palindrome'', JBool False)])) 200, apple_store)"
  by code_simp

text \<open>
  C7, as amended. In the handler of \<open>src/README.md\<close>, a GET of \<open>/strings\<close> whose parameters
  hold a malformed value for a recognised name (an \<open>is_palindrome\<close> that is neither
  \<open>true\<close> nor \<open>false\<close>, a \<open>min_length\<close>, \<open>max_length\<close> or \<open>word_count\<close> that is not a run
  of digits, an empty \<open>contains_character\<close>) is answered 400, naming a recognised
  parameter, with the store unchanged; a parameter of an unrecognised name changes nothing
  in the answer.
\<close>

theorem get_strings_rejects_malformed:
  "req_method req = str ''GET'' \<and> strip_trailing_slashes (pathname req) = str ''/strings'' \<longrightarrow>
     (malformed (searchParams req) \<longrightarrow>
        (\<exists>name \<in> set recognised.
           fetch_B P req st
           = (json (ErrorBody (str ''Invalid query parameter '' @ [0x27] @ name @ [0x27])) 400,
              st)))
     \<and> (\<forall>k v. k \<notin> set recognised \<longrightarrow>
           fetch_B P (req\<lparr>searchParams := (k, v) # searchParams req\<rparr>) st = fetch_B P req st)"
proof (intro impI conjI allI)
  assume r: "req_method req = str ''GET'' \<and> strip_trailing_slashes (pathname req) = str ''/strings''"
  assume "malformed (searchParams req)"
  then obtain name where "name \<in> set recognised"
    and "list_strings_B P req st
         = Inr (json (ErrorBody (str ''Invalid query parameter '' @ [0x27] @ name @ [0x27]))
                  400, st)"
    using list_strings_B_rejects [of req P st] by blast
  with r show "\<exists>name \<in> set recognised.
           fetch_B P req st
           = (json (ErrorBody (str ''Invalid query parameter '' @ [0x27] @ name @ [0x27])) 400,
              st)"
    by (auto simp: fetch_B_list_route catch_all_def)
next
  fix k v
  assume r: "req_method req = str ''GET'' \<and> strip_trailing_slashes (pathname req) = str ''/strings''"
  assume k: "k \<notin> set recognised"
  from r have "fetch_B P (req\<lparr>searchParams := (k, v) # searchParams req\<rparr>) st
        = catch_all st (list_strings_B P (req\<lparr>searchParams := (k, v) # searchParams req\<rparr>) st)"
    by (simp add: fetch_B_list_route)
  with r k show "fetch_B P (req\<lparr>searchParams := (k, v) # searchParams req\<rparr>) st
                 = fetch_B P req st"
    by (simp add: fetch_B_list_route list_strings_B_ignores_unrecognised)
qed

theorem get_strings_rejects_malformed_witness:
  "malformed [(str ''min_length'', str ''12a'')]
   \<and> fetch_B ascii_host (get_request (str ''/strings/'') [(str ''min_length'', str ''12a'')])
         apple_store
       = (json (ErrorBody (str ''Invalid query parameter '' @ [0x27] @ str ''min_length'' @ [0x27])) 400,
          apple_store)"
proof -
  let ?req = "get_request (str ''/strings/'') [(str ''min_length'', str ''12a'')]"
  have m: "req_method ?req = str ''GET''"
    by (simp add: get_request_def)
  have p: "strip_trailing_slashes (pathname ?req) = str ''/strings''"
    by code_simp
  have b: "malformed (searchParams ?req)"
    by code_simp
  have e: "fetch_B ascii_host ?req apple_store
       = (json (ErrorBody (str ''Invalid query parameter '' @ [0x27] @ str ''min_length'' @ [0x27])) 400,
          apple_store)"
    by code_simp
  from get_strings_rejects_malformed [of ?req ascii_host apple_store] m p b
  have "\<exists>name \<in> set recognised.
           fetch_B ascii_host ?req apple_store
           = (json (ErrorBody (str ''Invalid query parameter '' @ [0x27] @ name @ [0x27])) 400,
              apple_store)"
    by blast
  with b e show ?thesis
    by (simp add: get_request_def)
qed

section \<open>The store: proofs\<close>











lemma analyzeString_hash:
  "analyzeString P v = Inr an \<Longrightarrow> computeSHA256 P v = Inr (sha256_hash an)"
  by (auto simp: analyzeString_def split: sum.splits)

lemma set_update_subset: "set (AList.update k v al) \<subseteq> insert (k, v) (set al)"
  by (induction al) auto

lemma set_delete_subset: "set (AList.delete k al) \<subseteq> set al"
  by (induction al) auto

lemma store_inv_put:
  assumes "store_inv P st" and "entry_ok P (k, r)"
  shows "store_inv P (kv_put st k r)"
  using assms set_update_subset [of k r st]
  by (auto simp: store_inv_def kv_put_def distinct_update list_all_iff)

lemma store_inv_delete: "store_inv P st \<Longrightarrow> store_inv P (kv_delete st k)"
  using set_delete_subset [of k st]
  by (auto simp: store_inv_def kv_delete_def distinct_delete list_all_iff)

lemma store_inv_lookup:
  "store_inv P st \<Longrightarrow> kv_get st k = Some r \<longleftrightarrow> (k, r) \<in> set st"
  by (simp add: store_inv_def kv_get_def)

lemma store_inv_entry:
  "store_inv P st \<Longrightarrow> (k, r) \<in> set st \<Longrightarrow>
   rec_id r = k \<and> sha256_hash (properties r) = k \<and> computeSHA256 P (rec_value r) = Inr k"
  by (auto simp: store_inv_def list_all_iff entry_ok_def)

lemma create_record_inv:
  assumes "store_inv P st" and "create_record P req st v = Inr (resp, st')"
  shows "store_inv P st'"
proof (cases "analyzeString P v")
  case (Inl e)
  with assms(2) show ?thesis by (simp add: create_record_def)
next
  case (Inr an)
  then have h: "computeSHA256 P v = Inr (sha256_hash an)" by (rule analyzeString_hash)
  show ?thesis
  proof (cases "kv_get st (sha256_hash an)")
    case (Some existing)
    with Inr assms show ?thesis by (simp add: create_record_def Let_def)
  next
    case None
    let ?r = "\<lparr> rec_id = sha256_hash an, rec_value = v, properties = an,
                 created_at = time_now req \<rparr>"
    from h have "entry_ok P (sha256_hash an, ?r)" by (simp add: entry_ok_def)
    with assms(1) have "store_inv P (kv_put st (sha256_hash an) ?r)" by (rule store_inv_put)
    with None Inr assms(2) show ?thesis by (auto simp: create_record_def Let_def)
  qed
qed

lemma post_A_inv:
  "store_inv P st \<Longrightarrow> post_strings_A P req st = Inr (resp, st') \<Longrightarrow> store_inv P st'"
  by (auto simp: post_strings_A_def Let_def split: option.splits body_value.splits if_splits
      dest: create_record_inv)

lemma post_B_inv:
  "store_inv P st \<Longrightarrow> post_strings_B P req st = Inr (resp, st') \<Longrightarrow> store_inv P st'"
  by (auto simp: post_strings_B_def Let_def split: option.splits body_value.splits if_splits
      dest: create_record_inv)

lemma nl_route_store: "natural_language_route ap P req st = Inr (resp, st') \<Longrightarrow> st' = st"
  by (auto simp: natural_language_route_def Let_def split: option.splits if_splits)

lemma get_string_store: "get_string h P seg st = Inr (resp, st') \<Longrightarrow> st' = st"
  by (auto simp: get_string_def split: option.splits sum.splits)


lemma list_A_store: "list_strings_A req st = Inr (resp, st') \<Longrightarrow> st' = st"
  by (auto simp: list_strings_A_def Let_def)

lemma list_B_store: "list_strings_B P req st = Inr (resp, st') \<Longrightarrow> st' = st"
  by (auto simp: list_strings_B_def Let_def split: option.splits)












section \<open>Duplicate creation: proofs\<close>

lemma trim_prefix: "\<exists>w. dropWhile isSpace s = trim s @ w"
proof -
  let ?t = "dropWhile isSpace s"
  have "trim s @ rev (takeWhile isSpace (rev ?t))
        = rev (takeWhile isSpace (rev ?t) @ dropWhile isSpace (rev ?t))"
    by (simp only: trim_def rev_append)
  also have "\<dots> = rev (rev ?t)"
    by (simp only: takeWhile_dropWhile_id)
  also have "\<dots> = ?t"
    by simp
  finally have "?t = trim s @ rev (takeWhile isSpace (rev ?t))" by (rule sym)
  then show ?thesis ..
qed

lemma trim_head: "dropWhile isSpace (trim s) = trim s"
proof (cases "trim s")
  case Nil
  then show ?thesis by simp
next
  case (Cons c cs)
  from trim_prefix [of s] obtain w where w: "dropWhile isSpace s = trim s @ w" ..
  with Cons have "hd (dropWhile isSpace s) = c" "dropWhile isSpace s \<noteq> []" by simp_all
  then have "\<not> isSpace c" using hd_dropWhile [of isSpace s] by auto
  with Cons show ?thesis by simp
qed

lemma trim_idem: "trim (trim s) = trim s"
proof -
  have "rev (trim s) = dropWhile isSpace (rev (dropWhile isSpace s))"
    by (simp add: trim_def)
  then have "dropWhile isSpace (rev (trim s)) = rev (trim s)"
    by (simp add: dropWhile_idem)
  then have "rev (dropWhile isSpace (rev (dropWhile isSpace (trim s)))) = trim s"
    by (simp add: trim_head)
  then show ?thesis by (subst trim_def)
qed

lemma trimmed_put:
  assumes "values_trimmed st" and "trim (rec_value r) = rec_value r"
  shows "values_trimmed (kv_put st k r)"
  using assms set_update_subset [of k r st]
  by (auto simp: values_trimmed_def kv_put_def list_all_iff)

lemma trimmed_delete: "values_trimmed st \<Longrightarrow> values_trimmed (kv_delete st k)"
  using set_delete_subset [of k st]
  by (auto simp: values_trimmed_def kv_delete_def list_all_iff)

lemma create_record_trimmed:
  assumes "values_trimmed st" and "trim v = v"
    and "create_record P req st v = Inr (resp, st')"
  shows "values_trimmed st'"
  using assms
  by (auto simp: create_record_def Let_def trimmed_put split: sum.splits option.splits)

lemma post_A_trimmed:
  "values_trimmed st \<Longrightarrow> post_strings_A P req st = Inr (resp, st') \<Longrightarrow> values_trimmed st'"
  by (auto simp: post_strings_A_def Let_def split: option.splits body_value.splits if_splits
      dest: create_record_trimmed [OF _ trim_idem])

lemma delete_string_trimmed:
  "values_trimmed st \<Longrightarrow> delete_string h P seg st = Inr (resp, st') \<Longrightarrow> values_trimmed st'"
  by (auto simp: delete_string_def trimmed_delete split: option.splits sum.splits)

lemma catch_all_trimmed:
  assumes "values_trimmed st"
    and "\<forall>resp st'. out = Inr (resp, st') \<longrightarrow> values_trimmed st'"
  shows "values_trimmed (snd (catch_all st out))"
  using assms by (cases out) (auto simp: catch_all_def)

lemma fetch_A_trimmed:
  assumes "values_trimmed st"
  shows "values_trimmed (snd (fetch_A P req st))"
proof -
  let ?Q = "\<lambda>out. \<forall>resp st'. out = Inr (resp, st') \<longrightarrow> values_trimmed st'"
  have "\<exists>out. fetch_A P req st = catch_all st out \<and> ?Q out"
    using assms
    by (intro fetch_A_cases)
       (auto dest: post_A_trimmed nl_route_store get_string_store delete_string_trimmed
          list_A_store)
  with assms show ?thesis
    using catch_all_trimmed by metis
qed

lemma stored_value_trimmed:
  "values_trimmed st \<Longrightarrow> (k, r) \<in> set st \<Longrightarrow> trim (rec_value r) = rec_value r"
  by (auto simp: values_trimmed_def list_all_iff)

lemma store_ok_empty: "store_ok P []"
  by (simp add: store_ok_def store_inv_def)

lemma values_put:
  assumes "list_all (\<lambda>e. rec_value (snd e) \<noteq> []) st" and "rec_value r \<noteq> []"
  shows "list_all (\<lambda>e. rec_value (snd e) \<noteq> []) (kv_put st k r)"
  using assms set_update_subset [of k r st]
  by (auto simp: kv_put_def list_all_iff)

lemma values_delete:
  "list_all (\<lambda>e. rec_value (snd e) \<noteq> []) st \<Longrightarrow>
   list_all (\<lambda>e. rec_value (snd e) \<noteq> []) (kv_delete st k)"
  using set_delete_subset [of k st]
  by (auto simp: kv_delete_def list_all_iff)

lemma create_record_values:
  assumes "list_all (\<lambda>e. rec_value (snd e) \<noteq> []) st" and "v \<noteq> []"
    and "create_record P req st v = Inr (resp, st')"
  shows "list_all (\<lambda>e. rec_value (snd e) \<noteq> []) st'"
  using assms
  by (auto simp: create_record_def Let_def values_put split: sum.splits option.splits)

lemma post_A_ok:
  assumes "store_ok P st" and "post_strings_A P req st = Inr (resp, st')"
  shows "store_ok P st'"
proof -
  from assms have "store_inv P st'" by (auto simp: store_ok_def dest: post_A_inv)
  moreover from assms have "list_all (\<lambda>e. rec_value (snd e) \<noteq> []) st'"
    by (auto simp: store_ok_def post_strings_A_def Let_def
        split: option.splits body_value.splits if_splits dest: create_record_values)
  ultimately show ?thesis by (simp add: store_ok_def)
qed

lemma post_B_ok:
  assumes "store_ok P st" and "post_strings_B P req st = Inr (resp, st')"
  shows "store_ok P st'"
proof -
  from assms have "store_inv P st'" by (auto simp: store_ok_def dest: post_B_inv)
  moreover from assms have "list_all (\<lambda>e. rec_value (snd e) \<noteq> []) st'"
    by (auto simp: store_ok_def post_strings_B_def Let_def
        split: option.splits body_value.splits if_splits dest: create_record_values)
  ultimately show ?thesis by (simp add: store_ok_def)
qed

lemma delete_string_ok:
  "store_ok P st \<Longrightarrow> delete_string h P seg st = Inr (resp, st') \<Longrightarrow> store_ok P st'"
  by (auto simp: store_ok_def delete_string_def store_inv_delete values_delete
      split: option.splits sum.splits)

lemma catch_all_ok:
  assumes "store_ok P st"
    and "\<forall>resp st'. out = Inr (resp, st') \<longrightarrow> store_ok P st'"
  shows "store_ok P (snd (catch_all st out))"
  using assms by (cases out) (auto simp: catch_all_def)

lemma fetch_A_ok:
  assumes "store_ok P st"
  shows "store_ok P (snd (fetch_A P req st))"
proof -
  let ?Q = "\<lambda>out. \<forall>resp st'. out = Inr (resp, st') \<longrightarrow> store_ok P st'"
  have "\<exists>out. fetch_A P req st = catch_all st out \<and> ?Q out"
    using assms
    by (intro fetch_A_cases)
       (auto dest: post_A_ok nl_route_store get_string_store delete_string_ok list_A_store)
  with assms show ?thesis
    using catch_all_ok by metis
qed

lemma fetch_B_ok:
  assumes "store_ok P st"
  shows "store_ok P (snd (fetch_B P req st))"
proof -
  let ?Q = "\<lambda>out. \<forall>resp st'. out = Inr (resp, st') \<longrightarrow> store_ok P st'"
  have "\<exists>out. fetch_B P req st = catch_all st out \<and> ?Q out"
    using assms
    by (intro fetch_B_cases)
       (auto dest: post_B_ok nl_route_store get_string_store delete_string_ok list_B_store)
  with assms show ?thesis
    using catch_all_ok by metis
qed

lemma create_record_conflict:
  assumes "store_inv P st" and "(k, r) \<in> set st" and "rec_value r = v"
  shows "create_record P req st v
         = Inr (json (ErrorBody (str ''String already exists'')) 409, st)"
proof -
  from assms have h: "computeSHA256 P v = Inr k"
    using store_inv_entry [of P st k r] by simp
  from assms have g: "kv_get st k = Some r"
    by (simp add: store_inv_lookup)
  from h g show ?thesis
    by (simp add: create_record_def analyzeString_def)
qed

lemma stored_value_nonempty:
  "store_ok P st \<Longrightarrow> (k, r) \<in> set st \<Longrightarrow> rec_value r \<noteq> []"
  by (auto simp: store_ok_def list_all_iff)

lemma post_A_conflict:
  assumes "store_ok P st" and "(k, r) \<in> set st" and "body_json req = Some (AString raw)"
    and "rec_value r = trim raw"
  shows "post_strings_A P req st
         = Inr (json (ErrorBody (str ''String already exists'')) 409, st)"
proof -
  from assms have "trim raw \<noteq> []" using stored_value_nonempty [of P st k r] by simp
  moreover from assms have "create_record P req st (trim raw)
         = Inr (json (ErrorBody (str ''String already exists'')) 409, st)"
    by (intro create_record_conflict [of P st k r]) (simp_all add: store_ok_def)
  ultimately show ?thesis using assms(3) by (simp add: post_strings_A_def)
qed

lemma post_B_conflict:
  assumes "store_ok P st" and "(k, r) \<in> set st" and "body_json req = Some (AString raw)"
    and "rec_value r = raw"
  shows "post_strings_B P req st
         = Inr (json (ErrorBody (str ''String already exists'')) 409, st)"
proof -
  from assms have "raw \<noteq> []" using stored_value_nonempty [of P st k r] by simp
  moreover from assms have "create_record P req st raw
         = Inr (json (ErrorBody (str ''String already exists'')) 409, st)"
    by (intro create_record_conflict [of P st k r]) (simp_all add: store_ok_def)
  ultimately show ?thesis using assms(3) by (simp add: post_strings_B_def)
qed

lemma fetch_A_post_route:
  assumes "req_method req = str ''POST''"
    and "strip_trailing_slashes (pathname req) = str ''/strings''"
  shows "fetch_A P req st = catch_all st (post_strings_A P req st)"
  using assms by (simp add: fetch_A_def)

lemma fetch_B_post_route:
  assumes "req_method req = str ''POST''"
    and "strip_trailing_slashes (pathname req) = str ''/strings''"
  shows "fetch_B P req st = catch_all st (post_strings_B P req st)"
  using assms by (simp add: fetch_B_def segments_strings)

lemma kv_get_put_other: "k \<noteq> k' \<Longrightarrow> kv_get (kv_put st k' r') k = kv_get st k"
  by (simp add: kv_get_def kv_put_def update_conv')

lemma kv_get_delete: "kv_get (kv_delete st h) k = (if k = h then None else kv_get st k)"
  by (simp add: kv_get_def kv_delete_def delete_conv')

lemma create_record_keeps:
  assumes "create_record P req st v = Inr (resp, st')" and "kv_get st k = Some r"
  shows "kv_get st' k = Some r"
proof (cases "analyzeString P v")
  case (Inl e)
  with assms show ?thesis by (simp add: create_record_def)
next
  case (Inr an)
  show ?thesis
  proof (cases "kv_get st (sha256_hash an)")
    case (Some existing)
    with Inr assms show ?thesis by (simp add: create_record_def Let_def)
  next
    case None
    with assms(2) have "k \<noteq> sha256_hash an" by auto
    with None Inr assms show ?thesis
      by (auto simp: create_record_def Let_def kv_get_put_other)
  qed
qed

lemma post_A_keeps:
  "post_strings_A P req st = Inr (resp, st') \<Longrightarrow> kv_get st k = Some r \<Longrightarrow>
   kv_get st' k = Some r"
  by (auto simp: post_strings_A_def Let_def split: option.splits body_value.splits if_splits
      dest: create_record_keeps)

lemma post_B_keeps:
  "post_strings_B P req st = Inr (resp, st') \<Longrightarrow> kv_get st k = Some r \<Longrightarrow>
   kv_get st' k = Some r"
  by (auto simp: post_strings_B_def Let_def split: option.splits body_value.splits if_splits
      dest: create_record_keeps)

lemma delete_string_keeps:
  "delete_string h P seg st = Inr (resp, st') \<Longrightarrow> kv_get st k = Some r \<Longrightarrow>
   kv_get st' k = Some r \<or> kv_get st' k = None"
  by (auto simp: delete_string_def kv_get_delete split: option.splits sum.splits if_splits)

lemma catch_all_keeps:
  assumes "kv_get st k = Some r"
    and "\<forall>resp st'. out = Inr (resp, st') \<longrightarrow> Q (kv_get st' k)"
    and "Q (Some r)"
  shows "Q (kv_get (snd (catch_all st out)) k)"
  using assms by (cases out) (auto simp: catch_all_def)

lemma fetch_A_post_keeps:
  assumes "req_method req = str ''POST''"
    and "strip_trailing_slashes (pathname req) = str ''/strings''"
    and "kv_get st k = Some r"
  shows "kv_get (snd (fetch_A P req st)) k = Some r"
  unfolding fetch_A_post_route [OF assms(1,2)]
  by (rule catch_all_keeps [OF assms(3)]) (auto dest: post_A_keeps [OF _ assms(3)])

lemma fetch_B_post_keeps:
  assumes "req_method req = str ''POST''"
    and "strip_trailing_slashes (pathname req) = str ''/strings''"
    and "kv_get st k = Some r"
  shows "kv_get (snd (fetch_B P req st)) k = Some r"
  unfolding fetch_B_post_route [OF assms(1,2)]
  by (rule catch_all_keeps [OF assms(3)]) (auto dest: post_B_keeps [OF _ assms(3)])

lemma fetch_A_no_update:
  assumes "kv_get st k = Some r"
  shows "kv_get (snd (fetch_A P req st)) k = Some r \<or> kv_get (snd (fetch_A P req st)) k = None"
proof -
  let ?Q = "\<lambda>out. \<forall>resp st'. out = Inr (resp, st') \<longrightarrow>
              kv_get st' k = Some r \<or> kv_get st' k = None"
  have "\<exists>out. fetch_A P req st = catch_all st out \<and> ?Q out"
    using assms
    by (intro fetch_A_cases)
       (auto dest: post_A_keeps nl_route_store get_string_store delete_string_keeps list_A_store)
  then obtain out where o: "fetch_A P req st = catch_all st out" and q: "?Q out" by blast
  show ?thesis
    unfolding o
    by (rule catch_all_keeps [where Q = "\<lambda>x. x = Some r \<or> x = None", OF assms])
       (use q in simp_all)
qed

lemma fetch_B_no_update:
  assumes "kv_get st k = Some r"
  shows "kv_get (snd (fetch_B P req st)) k = Some r \<or> kv_get (snd (fetch_B P req st)) k = None"
proof -
  let ?Q = "\<lambda>out. \<forall>resp st'. out = Inr (resp, st') \<longrightarrow>
              kv_get st' k = Some r \<or> kv_get st' k = None"
  have "\<exists>out. fetch_B P req st = catch_all st out \<and> ?Q out"
    using assms
    by (intro fetch_B_cases)
       (auto dest: post_B_keeps nl_route_store get_string_store delete_string_keeps list_B_store)
  then obtain out where o: "fetch_B P req st = catch_all st out" and q: "?Q out" by blast
  show ?thesis
    unfolding o
    by (rule catch_all_keeps [where Q = "\<lambda>x. x = Some r \<or> x = None", OF assms])
       (use q in simp_all)
qed

lemma one_record_per_value:
  assumes "store_inv P st" and "(k1, r1) \<in> set st" and "(k2, r2) \<in> set st"
    and "rec_value r1 = rec_value r2"
  shows "k1 = k2 \<and> r1 = r2"
proof -
  from assms have "computeSHA256 P (rec_value r1) = Inr k1"
    "computeSHA256 P (rec_value r1) = Inr k2"
    using store_inv_entry [of P st k1 r1] store_inv_entry [of P st k2 r2] by simp_all
  then have k: "k1 = k2" by simp
  from assms have "kv_get st k1 = Some r1" "kv_get st k2 = Some r2"
    by (simp_all add: store_inv_lookup)
  with k show ?thesis by simp
qed

lemma fetch_A_conflict:
  assumes "store_ok P st" and "req_method req = str ''POST''"
    and "strip_trailing_slashes (pathname req) = str ''/strings''"
    and "body_json req = Some (AString raw)"
    and "\<exists>k r. (k, r) \<in> set st \<and> rec_value r = trim raw"
  shows "fetch_A P req st = (json (ErrorBody (str ''String already exists'')) 409, st)"
proof -
  from assms(5) obtain k r where "(k, r) \<in> set st" "rec_value r = trim raw" by blast
  with assms(1,4) have "post_strings_A P req st
         = Inr (json (ErrorBody (str ''String already exists'')) 409, st)"
    by (intro post_A_conflict [of P st k r])
  then show ?thesis
    by (simp add: fetch_A_post_route [OF assms(2,3)] catch_all_def)
qed

lemma fetch_A_conflict_trimmed:
  assumes "store_ok P st" and "values_trimmed st" and "req_method req = str ''POST''"
    and "strip_trailing_slashes (pathname req) = str ''/strings''"
    and "body_json req = Some (AString raw)"
    and "\<exists>k r. (k, r) \<in> set st \<and> rec_value r = raw"
  shows "fetch_A P req st = (json (ErrorBody (str ''String already exists'')) 409, st)"
proof -
  from assms(6) obtain k r where kr: "(k, r) \<in> set st" "rec_value r = raw" by blast
  with assms(2) have "rec_value r = trim raw"
    using stored_value_trimmed [of st k r] by simp
  with kr have "\<exists>k r. (k, r) \<in> set st \<and> rec_value r = trim raw" by blast
  with assms(1,3,4,5) show ?thesis by (rule fetch_A_conflict)
qed

lemma fetch_B_conflict:
  assumes "store_ok P st" and "req_method req = str ''POST''"
    and "strip_trailing_slashes (pathname req) = str ''/strings''"
    and "body_json req = Some (AString raw)"
    and "\<exists>k r. (k, r) \<in> set st \<and> rec_value r = raw"
  shows "fetch_B P req st = (json (ErrorBody (str ''String already exists'')) 409, st)"
proof -
  from assms(5) obtain k r where "(k, r) \<in> set st" "rec_value r = raw" by blast
  with assms(1,4) have "post_strings_B P req st
         = Inr (json (ErrorBody (str ''String already exists'')) 409, st)"
    by (intro post_B_conflict [of P st k r])
  then show ?thesis
    by (simp add: fetch_B_post_route [OF assms(2,3)] catch_all_def)
qed

text \<open>
  C8. The empty store satisfies the invariant and every request preserves it. On such a
  store, a POST to \<open>/strings\<close> whose value is the value of a stored record is answered 409
  \<open>String already exists\<close> and the store is unchanged: in \<open>src/README.md\<close> for the value
  of the body, in \<open>src/unnamed/part_000\<close> for the trimmed value of the body and, in a
  store built by that handler, where every value is trimmed, for the value of the body
  too. A POST to \<open>/strings\<close> leaves every stored record as it is; after any request a
  stored record is as it was or is gone, so that no request updates a record; and two
  entries of the store with the same value are the same entry.
\<close>

theorem duplicate_post_is_conflict:
  "store_ok P []
   \<and> (store_ok P st \<longrightarrow>
        store_ok P (snd (fetch_A P req st)) \<and> store_ok P (snd (fetch_B P req st)))
   \<and> values_trimmed []
   \<and> (values_trimmed st \<longrightarrow> values_trimmed (snd (fetch_A P req st)))
   \<and> (store_ok P st \<and> values_trimmed st \<and> req_method req = str ''POST''
        \<and> strip_trailing_slashes (pathname req) = str ''/strings''
        \<and> body_json req = Some (AString raw)
        \<and> (\<exists>k r. (k, r) \<in> set st \<and> rec_value r = raw) \<longrightarrow>
        fetch_A P req st = (json (ErrorBody (str ''String already exists'')) 409, st))
   \<and> (store_ok P st \<and> req_method req = str ''POST''
        \<and> strip_trailing_slashes (pathname req) = str ''/strings''
        \<and> body_json req = Some (AString raw) \<longrightarrow>
        ((\<exists>k r. (k, r) \<in> set st \<and> rec_value r = trim raw) \<longrightarrow>
           fetch_A P req st = (json (ErrorBody (str ''String already exists'')) 409, st))
        \<and> ((\<exists>k r. (k, r) \<in> set st \<and> rec_value r = raw) \<longrightarrow>
           fetch_B P req st = (json (ErrorBody (str ''String already exists'')) 409, st)))
   \<and> (req_method req = str ''POST'' \<and> strip_trailing_slashes (pathname req) = str ''/strings''
        \<and> kv_get st k = Some r \<longrightarrow>
        kv_get (snd (fetch_A P req st)) k = Some r \<and> kv_get (snd (fetch_B P req st)) k = Some r)
   \<and> (kv_get st k = Some r \<longrightarrow>
        (kv_get (snd (fetch_A P req st)) k = Some r \<or> kv_get (snd (fetch_A P req st)) k = None)
        \<and> (kv_get (snd (fetch_B P req st)) k = Some r
            \<or> kv_get (snd (fetch_B P req st)) k = None))
   \<and> (store_ok P st \<and> (k1, r1) \<in> set st \<and> (k2, r2) \<in> set st
        \<and> rec_value r1 = rec_value r2 \<longrightarrow> k1 = k2 \<and> r1 = r2)"
proof -
  have a: "store_ok P st \<longrightarrow>
        store_ok P (snd (fetch_A P req st)) \<and> store_ok P (snd (fetch_B P req st))"
    by (simp add: fetch_A_ok fetch_B_ok)
  have t0: "values_trimmed []"
    by (simp add: values_trimmed_def)
  have t1: "values_trimmed st \<longrightarrow> values_trimmed (snd (fetch_A P req st))"
    by (simp add: fetch_A_trimmed)
  have t2: "store_ok P st \<and> values_trimmed st \<and> req_method req = str ''POST''
        \<and> strip_trailing_slashes (pathname req) = str ''/strings''
        \<and> body_json req = Some (AString raw)
        \<and> (\<exists>k r. (k, r) \<in> set st \<and> rec_value r = raw) \<longrightarrow>
        fetch_A P req st = (json (ErrorBody (str ''String already exists'')) 409, st)"
    using fetch_A_conflict_trimmed [of P st req raw] by blast
  have b: "store_ok P st \<and> req_method req = str ''POST''
        \<and> strip_trailing_slashes (pathname req) = str ''/strings''
        \<and> body_json req = Some (AString raw) \<longrightarrow>
        ((\<exists>k r. (k, r) \<in> set st \<and> rec_value r = trim raw) \<longrightarrow>
           fetch_A P req st = (json (ErrorBody (str ''String already exists'')) 409, st))
        \<and> ((\<exists>k r. (k, r) \<in> set st \<and> rec_value r = raw) \<longrightarrow>
           fetch_B P req st = (json (ErrorBody (str ''String already exists'')) 409, st))"
    using fetch_A_conflict [of P st req raw] fetch_B_conflict [of P st req raw] by blast
  have c: "req_method req = str ''POST'' \<and> strip_trailing_slashes (pathname req) = str ''/strings''
        \<and> kv_get st k = Some r \<longrightarrow>
        kv_get (snd (fetch_A P req st)) k = Some r \<and> kv_get (snd (fetch_B P req st)) k = Some r"
    using fetch_A_post_keeps [of req st k r P] fetch_B_post_keeps [of req st k r P] by blast
  have d: "kv_get st k = Some r \<longrightarrow>
        (kv_get (snd (fetch_A P req st)) k = Some r \<or> kv_get (snd (fetch_A P req st)) k = None)
        \<and> (kv_get (snd (fetch_B P req st)) k = Some r
            \<or> kv_get (snd (fetch_B P req st)) k = None)"
  proof
    assume g: "kv_get st k = Some r"
    from fetch_A_no_update [OF g, of P req] fetch_B_no_update [OF g, of P req]
    show "(kv_get (snd (fetch_A P req st)) k = Some r \<or> kv_get (snd (fetch_A P req st)) k = None)
        \<and> (kv_get (snd (fetch_B P req st)) k = Some r
            \<or> kv_get (snd (fetch_B P req st)) k = None)"
      by (intro conjI)
  qed
  have e: "store_ok P st \<and> (k1, r1) \<in> set st \<and> (k2, r2) \<in> set st
        \<and> rec_value r1 = rec_value r2 \<longrightarrow> k1 = k2 \<and> r1 = r2"
    using one_record_per_value [of P st k1 r1 k2 r2] by (simp add: store_ok_def)
  from store_ok_empty [of P] a t0 t1 t2 b c d e show ?thesis
    by (intro conjI)
qed

theorem duplicate_post_is_conflict_witness:
  "store_ok ascii_host apple_store
   \<and> map (\<lambda>(k, r). rec_value r) apple_store = [str ''Apple'']
   \<and> values_trimmed apple_store
   \<and> fetch_A ascii_host (post_request (str ''Apple'')) apple_store
       = (json (ErrorBody (str ''String already exists'')) 409, apple_store)
   \<and> trim (str '' Apple  '') = str ''Apple''
   \<and> fetch_A ascii_host (post_request (str '' Apple  '')) apple_store
       = (json (ErrorBody (str ''String already exists'')) 409, apple_store)
   \<and> fetch_B ascii_host (post_request (str ''Apple'')) apple_store
       = (json (ErrorBody (str ''String already exists'')) 409, apple_store)
   \<and> fetch_B ascii_host (post_request (str '' Apple  '')) apple_store
       \<noteq> (json (ErrorBody (str ''String already exists'')) 409, apple_store)"
proof -
  have i: "store_ok ascii_host apple_store"
    by code_simp
  have m: "map (\<lambda>(k, r). rec_value r) apple_store = [str ''Apple'']"
    by code_simp
  have t: "trim (str '' Apple  '') = str ''Apple''"
    by code_simp
  have vt: "values_trimmed apple_store"
    by code_simp
  have n: "fetch_B ascii_host (post_request (str '' Apple  '')) apple_store
       \<noteq> (json (ErrorBody (str ''String already exists'')) 409, apple_store)"
    by code_simp
  from m have "str ''Apple'' \<in> set (map (\<lambda>(k, r). rec_value r) apple_store)"
    by simp
  then obtain e where "e \<in> set apple_store" "rec_value (snd e) = str ''Apple''"
    by (auto simp: case_prod_beta)
  then have "(fst e, snd e) \<in> set apple_store \<and> rec_value (snd e) = str ''Apple''"
    by simp
  then have x: "\<exists>k r. (k, r) \<in> set apple_store \<and> rec_value r = str ''Apple''"
    by blast
  have p: "req_method (post_request v) = str ''POST''"
    "strip_trailing_slashes (pathname (post_request v)) = str ''/strings''"
    "body_json (post_request v) = Some (AString v)" for v
    by (simp_all add: post_request_def strip_trailing_slashes_def str_def)
  from duplicate_post_is_conflict
         [of ascii_host apple_store "post_request (str '' Apple  '')" "str '' Apple  ''"]
       i p t x
  have fa: "fetch_A ascii_host (post_request (str '' Apple  '')) apple_store
       = (json (ErrorBody (str ''String already exists'')) 409, apple_store)"
    by simp
  from duplicate_post_is_conflict
         [of ascii_host apple_store "post_request (str ''Apple'')" "str ''Apple''"]
       i p x
  have fb: "fetch_B ascii_host (post_request (str ''Apple'')) apple_store
       = (json (ErrorBody (str ''String already exists'')) 409, apple_store)"
    by simp
  from duplicate_post_is_conflict
         [of ascii_host apple_store "post_request (str ''Apple'')" "str ''Apple''"]
       i vt p x
  have fr: "fetch_A ascii_host (post_request (str ''Apple'')) apple_store
       = (json (ErrorBody (str ''String already exists'')) 409, apple_store)"
    by simp
  from i m vt fr t fa fb n show ?thesis by (intro conjI)
qed

end
